theory Spec2Isabelle
  imports Complex_Main "HOL-Library.AList" "HOL-Library.Sublist" "HOL-Library.Multiset"
begin

section \<open>Data model of the search workflow\<close>

text \<open>
  The embedding follows \<^verbatim>\<open>src/backend/workflows/search_workflow.py\<close>.
  Relevance scores are Python floats; they are modelled as exact reals, so rounding,
  infinities and NaN are outside the model. A character is a code point below 256; on
  these the character classes and \<^verbatim>\<open>str.lower()\<close> below are those of Python. Text with
  other code points is outside the model.
\<close>

text \<open>
  A Python \<^verbatim>\<open>datetime\<close> is aware (it has a \<^verbatim>\<open>tzinfo\<close>) or naive. An aware one is modelled
  by its instant, the number of microseconds since 1970-01-01T00:00:00Z, because the
  comparisons of the workflow only read the instant; a naive one by the microseconds of
  its wall-clock reading. Comparing a naive with an aware datetime raises \<^verbatim>\<open>TypeError\<close>.
\<close>

type_synonym instant = int

datatype datetime = Aware instant | Naive instant

definition is_aware :: "datetime \<Rightarrow> bool" where
  "is_aware d = (case d of Aware t \<Rightarrow> True | Naive t \<Rightarrow> False)"

definition reading :: "datetime \<Rightarrow> instant" where
  "reading d = (case d of Aware t \<Rightarrow> t | Naive t \<Rightarrow> t)"

definition mixed_comparison :: string where
  "mixed_comparison = ''can'' @ [CHR 0x27] @ ''t compare offset-naive and offset-aware datetimes''"

text \<open>\<^verbatim>\<open>a < b\<close> on datetimes.\<close>

definition dt_less :: "datetime \<Rightarrow> datetime \<Rightarrow> string + bool" where
  "dt_less a b =
     (if is_aware a = is_aware b then Inr (reading a < reading b) else Inl mixed_comparison)"

text \<open>
  \<^verbatim>\<open>VectorSearchResult\<close> of \<^verbatim>\<open>src/backend/services/qdrant/qdrant_service.py\<close>, which the
  workflow imports: one hit of the vector store, joined with the message it belongs to.
  \<^verbatim>\<open>date_sent\<close> is a string here. The field \<^verbatim>\<open>metadata\<close> is never read by the workflow and
  is left out.
\<close>

record VectorSearchResult =
  message_id :: int
  external_message_id :: string
  score :: real
  subject :: string
  snippet :: string
  sender_email :: string
  date_sent :: string

datatype SearchType = SEMANTIC | KEYWORD | HYBRID | FILTERED

record SearchResult =
  message_id :: int
  external_message_id :: string
  subject :: string
  snippet :: string
  sender_email :: string
  sender_name :: string
  date_sent :: datetime
  relevance_score :: real
  search_type :: string
  labels :: "string list"
  has_attachments :: bool

record SearchFilters =
  sender_emails :: "string list"
  date_from :: "datetime option"
  date_to :: "datetime option"
  labels :: "string list"
  has_attachments :: "bool option"
  is_important :: "bool option"
  "keywords" :: "string list"

section \<open>Python primitives used by the workflow\<close>

text \<open>
  \<^verbatim>\<open>str.lower()\<close> on code points below 256: the letters A..Z and the Latin-1 capitals
  0xC0..0xDE (without the multiplication sign 0xD7) move up by 32, all else is kept.
\<close>

definition upper_chars :: string where
  "upper_chars = ''ABCDEFGHIJKLMNOPQRSTUVWXYZ'' @
     [CHR 0xC0, CHR 0xC1, CHR 0xC2, CHR 0xC3, CHR 0xC4, CHR 0xC5, CHR 0xC6, CHR 0xC7,
      CHR 0xC8, CHR 0xC9, CHR 0xCA, CHR 0xCB, CHR 0xCC, CHR 0xCD, CHR 0xCE, CHR 0xCF,
      CHR 0xD0, CHR 0xD1, CHR 0xD2, CHR 0xD3, CHR 0xD4, CHR 0xD5, CHR 0xD6,
      CHR 0xD8, CHR 0xD9, CHR 0xDA, CHR 0xDB, CHR 0xDC, CHR 0xDD, CHR 0xDE]"

definition lower_chars :: string where
  "lower_chars = ''abcdefghijklmnopqrstuvwxyz'' @
     [CHR 0xE0, CHR 0xE1, CHR 0xE2, CHR 0xE3, CHR 0xE4, CHR 0xE5, CHR 0xE6, CHR 0xE7,
      CHR 0xE8, CHR 0xE9, CHR 0xEA, CHR 0xEB, CHR 0xEC, CHR 0xED, CHR 0xEE, CHR 0xEF,
      CHR 0xF0, CHR 0xF1, CHR 0xF2, CHR 0xF3, CHR 0xF4, CHR 0xF5, CHR 0xF6,
      CHR 0xF8, CHR 0xF9, CHR 0xFA, CHR 0xFB, CHR 0xFC, CHR 0xFD, CHR 0xFE]"

definition lower_char :: "char \<Rightarrow> char" where
  "lower_char c = (case map_of (zip upper_chars lower_chars) c of None \<Rightarrow> c | Some l \<Rightarrow> l)"

definition lower :: "string \<Rightarrow> string" where
  "lower s = map lower_char s"

text \<open>\<^verbatim>\<open>sub in s\<close> for strings: \<open>sub\<close> occurs in \<open>s\<close> as a contiguous block.\<close>

fun str_contains :: "string \<Rightarrow> string \<Rightarrow> bool" where
  "str_contains sub [] = (sub = [])"
| "str_contains sub (c # cs) = (prefix sub (c # cs) \<or> str_contains sub cs)"

text \<open>
  The slice \<^verbatim>\<open>xs[:n]\<close>: a negative bound counts from the end of the list, and a bound
  beyond either end is clipped.
\<close>

definition py_slice_to :: "'a list \<Rightarrow> int \<Rightarrow> 'a list" where
  "py_slice_to xs n =
     (if n < 0 then take (nat (int (length xs) + n)) xs else take (nat n) xs)"

text \<open>
  \<^verbatim>\<open>xs.sort(key=lambda x: x.relevance_score, reverse=True)\<close>: Python's sort is stable,
  also with \<^verbatim>\<open>reverse=True\<close>, so results of equal score keep their order. This is the
  stable insertion sort on the negated score.
\<close>

definition sort_by_relevance :: "SearchResult list \<Rightarrow> SearchResult list" where
  "sort_by_relevance rs = sort_key (\<lambda>x. - relevance_score x) rs"

section \<open>Fusion: \<^verbatim>\<open>_fuse_results\<close>\<close>

text \<open>
  \<^verbatim>\<open>combined_results\<close> is a dict keyed by message id. A Python dict keeps insertion
  order and an assignment to an existing key keeps the key's position, which is what
  \<^const>\<open>AList.update\<close> does on an association list. The dict holds references to the
  result objects; the writes \<^verbatim>\<open>combined_results[key].search_type = ...\<close> are record
  updates of the stored value.
\<close>

type_synonym combined = "(int \<times> SearchResult) list"

definition add_keyword_result :: "combined \<Rightarrow> SearchResult \<Rightarrow> combined" where
  "add_keyword_result combined_results result =
     (let key = message_id result in
      case map_of combined_results key of
        None \<Rightarrow> AList.update key (result\<lparr>search_type := ''keyword''\<rparr>) combined_results
      | Some cur \<Rightarrow>
          AList.update key
            (cur\<lparr>relevance_score := max (relevance_score cur) (relevance_score result),
                 search_type := ''hybrid''\<rparr>) combined_results)"

definition add_semantic_result :: "combined \<Rightarrow> SearchResult \<Rightarrow> combined" where
  "add_semantic_result combined_results result =
     (let key = message_id result in
      case map_of combined_results key of
        None \<Rightarrow> AList.update key (result\<lparr>search_type := ''semantic''\<rparr>) combined_results
      | Some cur \<Rightarrow>
          (let keyword_score = relevance_score cur;
               semantic_score = relevance_score result;
               combined_score = (semantic_score * 0.6) + (keyword_score * 0.4)
           in AList.update key
                (cur\<lparr>relevance_score := combined_score, search_type := ''hybrid''\<rparr>)
                combined_results))"

definition combine :: "SearchResult list \<Rightarrow> SearchResult list \<Rightarrow> combined" where
  "combine keyword_results semantic_results =
     foldl add_semantic_result (foldl add_keyword_result [] keyword_results) semantic_results"

definition fuse :: "SearchResult list \<Rightarrow> SearchResult list \<Rightarrow> int \<Rightarrow> SearchResult list" where
  "fuse keyword_results semantic_results max_results =
     (let fused_results = sort_by_relevance (map snd (combine keyword_results semantic_results))
      in py_slice_to fused_results max_results)"

section \<open>Post-filter: the loop of \<^verbatim>\<open>_apply_filters\<close>\<close>

text \<open>
  The two date tests of the loop. A datetime object is always truthy, so
  \<^verbatim>\<open>if filters.date_from and ...\<close> tests for \<^verbatim>\<open>None\<close>; the comparison is only evaluated
  when the bound is set, and it raises when one side is naive and the other aware.
\<close>

definition before_date_from :: "SearchFilters \<Rightarrow> SearchResult \<Rightarrow> string + bool" where
  "before_date_from f result =
     (case date_from f of None \<Rightarrow> Inr False | Some d \<Rightarrow> dt_less (date_sent result) d)"

definition after_date_to :: "SearchFilters \<Rightarrow> SearchResult \<Rightarrow> string + bool" where
  "after_date_to f result =
     (case date_to f of None \<Rightarrow> Inr False | Some d \<Rightarrow> dt_less d (date_sent result))"

text \<open>
  The loop over \<^verbatim>\<open>state.final_results\<close>; every \<^verbatim>\<open>continue\<close> is a branch that goes on
  with the rest of the list and leaves \<^verbatim>\<open>filtered_results\<close> as it is. The tests run in
  the order of the source, so a result that fails the sender test never reaches the date
  comparisons. An exception leaves the loop with its message.
\<close>

fun apply_filters_loop ::
  "SearchFilters \<Rightarrow> SearchResult list \<Rightarrow> SearchResult list \<Rightarrow> string + SearchResult list"
  where
  "apply_filters_loop f [] filtered_results = Inr filtered_results"
| "apply_filters_loop f (result # rest) filtered_results =
     (if sender_emails f \<noteq> [] \<and>
         \<not> list_ex (\<lambda>sender. str_contains sender (lower (sender_email result))) (sender_emails f)
      then apply_filters_loop f rest filtered_results
      else case before_date_from f result of
        Inl e \<Rightarrow> Inl e
      | Inr True \<Rightarrow> apply_filters_loop f rest filtered_results
      | Inr False \<Rightarrow>
          (case after_date_to f result of
             Inl e \<Rightarrow> Inl e
           | Inr True \<Rightarrow> apply_filters_loop f rest filtered_results
           | Inr False \<Rightarrow>
               (if (case is_important f of None \<Rightarrow> False
                    | Some imp \<Rightarrow> imp \<noteq> (''IMPORTANT'' \<in> set (SearchResult.labels result)))
                then apply_filters_loop f rest filtered_results
                else if (case SearchFilters.has_attachments f of None \<Rightarrow> False
                         | Some att \<Rightarrow> att \<noteq> SearchResult.has_attachments result)
                then apply_filters_loop f rest filtered_results
                else if SearchFilters.labels f \<noteq> [] \<and>
                   \<not> list_ex (\<lambda>label. label \<in> set (SearchResult.labels result))
                       (SearchFilters.labels f)
                then apply_filters_loop f rest filtered_results
                else apply_filters_loop f rest (filtered_results @ [result]))))"

section \<open>Python string and regular-expression primitives of the parser\<close>

text \<open>
  Character classes on code points below 256. \<^verbatim>\<open>\\s\<close>, \<^verbatim>\<open>str.strip()\<close> and \<^verbatim>\<open>str.split()\<close>
  share Python's notion of white space. \<^verbatim>\<open>\\w\<close> is the underscore or a character that
  \<^verbatim>\<open>str.isalnum()\<close> accepts, which includes the Latin-1 letters and digit-like signs;
  \<^verbatim>\<open>\\d\<close> is a decimal digit, and the classes written out in the patterns are ASCII.
\<close>

definition is_space :: "char \<Rightarrow> bool" where
  "is_space c = (c \<in> set [CHR '' '', CHR 0x09, CHR 0x0A, CHR 0x0B, CHR 0x0C, CHR 0x0D,
                            CHR 0x1C, CHR 0x1D, CHR 0x1E, CHR 0x1F, CHR 0x85, CHR 0xA0])"

definition is_alpha :: "char \<Rightarrow> bool" where
  "is_alpha c = (c \<in> set ''abcdefghijklmnopqrstuvwxyzABCDEFGHIJKLMNOPQRSTUVWXYZ'')"

definition is_digit :: "char \<Rightarrow> bool" where
  "is_digit c = (c \<in> set ''0123456789'')"

definition latin1_alnum :: string where
  "latin1_alnum =
     [CHR 0xAA, CHR 0xB2, CHR 0xB3, CHR 0xB5, CHR 0xB9, CHR 0xBA, CHR 0xBC, CHR 0xBD, CHR 0xBE,
      CHR 0xDF, CHR 0xFF] @ upper_chars @ lower_chars"

definition is_word :: "char \<Rightarrow> bool" where
  "is_word c = (is_digit c \<or> c = CHR ''_'' \<or> c \<in> set latin1_alnum)"

definition is_email_local :: "char \<Rightarrow> bool" where
  "is_email_local c = (is_alpha c \<or> is_digit c \<or> c \<in> set ''._%+-'')"

definition is_email_domain :: "char \<Rightarrow> bool" where
  "is_email_domain c = (is_alpha c \<or> is_digit c \<or> c \<in> set ''.-'')"

definition strip :: "string \<Rightarrow> string" where
  "strip s = rev (dropWhile is_space (rev (dropWhile is_space s)))"

text \<open>\<^verbatim>\<open>s.split()\<close>: the maximal runs of non-space characters; \<open>cur\<close> is the current run, reversed.\<close>

fun split_go :: "string \<Rightarrow> string \<Rightarrow> string list" where
  "split_go cur [] = (if cur = [] then [] else [rev cur])"
| "split_go cur (c # cs) =
     (if is_space c then (if cur = [] then split_go [] cs else rev cur # split_go [] cs)
      else split_go (c # cur) cs)"

definition split :: "string \<Rightarrow> string list" where
  "split s = split_go [] s"

fun join :: "string \<Rightarrow> string list \<Rightarrow> string" where
  "join sep [] = []"
| "join sep [x] = x"
| "join sep (x # y # ys) = x @ sep @ join sep (y # ys)"

text \<open>
  Python's \<^verbatim>\<open>re\<close> is a backtracking matcher. A position in the subject is the text before
  it, reversed, and the text after it. A matcher maps a start position to the end positions
  of all its matches there, in the order in which backtracking tries them; the first one
  is the match that \<^verbatim>\<open>re\<close> reports. Sequencing feeds every end position of the first
  matcher to the second, alternation lists the left alternative first, and a greedy
  repetition lists the longest run first.
\<close>

type_synonym pos = "string \<times> string"
type_synonym matcher = "pos \<Rightarrow> pos list"

definition lit :: "string \<Rightarrow> matcher" where
  "lit s p =
     (if prefix s (snd p) then [(rev s @ fst p, drop (length s) (snd p))] else [])"

definition one :: "(char \<Rightarrow> bool) \<Rightarrow> matcher" where
  "one P p = (case snd p of [] \<Rightarrow> [] | c # cs \<Rightarrow> if P c then [(c # fst p, cs)] else [])"

fun star_go :: "(char \<Rightarrow> bool) \<Rightarrow> string \<Rightarrow> string \<Rightarrow> pos list" where
  "star_go P pre [] = [(pre, [])]"
| "star_go P pre (c # cs) =
     (if P c then star_go P (c # pre) cs @ [(pre, c # cs)] else [(pre, c # cs)])"

definition star :: "(char \<Rightarrow> bool) \<Rightarrow> matcher" where
  "star P p = star_go P (fst p) (snd p)"

definition seq :: "matcher \<Rightarrow> matcher \<Rightarrow> matcher" where
  "seq m1 m2 p = concat (map m2 (m1 p))"

definition plus :: "(char \<Rightarrow> bool) \<Rightarrow> matcher" where
  "plus P = seq (one P) (star P)"

definition opt :: "matcher \<Rightarrow> matcher" where
  "opt m p = m p @ [p]"

definition alts :: "matcher list \<Rightarrow> matcher" where
  "alts ms p = concat (map (\<lambda>m. m p) ms)"

definition at_word :: "string \<Rightarrow> bool" where
  "at_word s = (case s of [] \<Rightarrow> False | c # _ \<Rightarrow> is_word c)"

text \<open>\<^verbatim>\<open>\\b\<close>: exactly one of the characters next to the position is a word character.\<close>

definition wordb :: matcher where
  "wordb p = (if at_word (fst p) \<noteq> at_word (snd p) then [p] else [])"

text \<open>The text between two positions of the same subject, the second not before the first.\<close>

definition between :: "pos \<Rightarrow> pos \<Rightarrow> string" where
  "between p e = take (length (snd p) - length (snd e)) (snd p)"

text \<open>
  \<^verbatim>\<open>re.search\<close>: the first match of the leftmost start position that has one.
\<close>

fun re_find_go :: "(pos \<Rightarrow> 'a list) \<Rightarrow> string \<Rightarrow> string \<Rightarrow> 'a option" where
  "re_find_go m pre [] = (case m (pre, []) of [] \<Rightarrow> None | x # _ \<Rightarrow> Some x)"
| "re_find_go m pre (c # cs) =
     (case m (pre, c # cs) of [] \<Rightarrow> re_find_go m (c # pre) cs | x # _ \<Rightarrow> Some x)"

definition re_find :: "(pos \<Rightarrow> 'a list) \<Rightarrow> string \<Rightarrow> 'a option" where
  "re_find m s = re_find_go m [] s"

definition re_search :: "matcher \<Rightarrow> string \<Rightarrow> bool" where
  "re_search m s = (re_find m s \<noteq> None)"

text \<open>
  \<^verbatim>\<open>re.sub(pattern, repl, s)\<close>: the non-overlapping matches, found from left to right on
  the original text, are replaced. \<open>skip\<close> counts the characters of the current match that
  are still to be dropped. No pattern of the parser matches the empty string; an empty
  match is treated as no match.
\<close>

fun re_sub_go :: "matcher \<Rightarrow> string \<Rightarrow> string \<Rightarrow> string \<Rightarrow> nat \<Rightarrow> string" where
  "re_sub_go m repl pre [] skip = []"
| "re_sub_go m repl pre (c # cs) skip =
     (if 0 < skip then re_sub_go m repl (c # pre) cs (skip - 1)
      else case m (pre, c # cs) of
             [] \<Rightarrow> c # re_sub_go m repl (c # pre) cs 0
           | e # _ \<Rightarrow>
               (let k = length (c # cs) - length (snd e)
                in if k = 0 then c # re_sub_go m repl (c # pre) cs 0
                   else repl @ re_sub_go m repl (c # pre) cs (k - 1)))"

definition re_sub :: "matcher \<Rightarrow> string \<Rightarrow> string \<Rightarrow> string" where
  "re_sub m repl s = re_sub_go m repl [] s 0"

text \<open>\<^verbatim>\<open>s.replace(old, '')\<close> removes the non-overlapping occurrences of \<open>old\<close>, left to right.\<close>

definition str_remove :: "string \<Rightarrow> string \<Rightarrow> string" where
  "str_remove old s = re_sub (lit old) [] s"

text \<open>
  A pattern with one group is a matcher for the part in front of the group and a matcher for
  the group; the pattern ends with the group. A match is the pair of the position where
  the group starts and the position where it ends. \<^verbatim>\<open>re.findall\<close> returns the group texts
  of the non-overlapping matches.
\<close>

type_synonym group_pattern = "matcher \<times> matcher"

definition group_matches :: "group_pattern \<Rightarrow> pos \<Rightarrow> (pos \<times> pos) list" where
  "group_matches pat p = concat (map (\<lambda>g. map (\<lambda>e. (g, e)) (snd pat g)) (fst pat p))"

definition whole :: "group_pattern \<Rightarrow> matcher" where
  "whole pat = seq (fst pat) (snd pat)"

fun re_findall_go :: "group_pattern \<Rightarrow> string \<Rightarrow> string \<Rightarrow> nat \<Rightarrow> string list" where
  "re_findall_go pat pre [] skip = []"
| "re_findall_go pat pre (c # cs) skip =
     (if 0 < skip then re_findall_go pat (c # pre) cs (skip - 1)
      else case group_matches pat (pre, c # cs) of
             [] \<Rightarrow> re_findall_go pat (c # pre) cs 0
           | (g, e) # _ \<Rightarrow>
               (let k = length (c # cs) - length (snd e)
                in if k = 0 then re_findall_go pat (c # pre) cs 0
                   else between g e # re_findall_go pat (c # pre) cs (k - 1)))"

definition re_findall :: "group_pattern \<Rightarrow> string \<Rightarrow> string list" where
  "re_findall pat s = re_findall_go pat [] s 0"

section \<open>Dates of the parser\<close>

text \<open>
  The proleptic Gregorian calendar of \<^verbatim>\<open>datetime\<close>: the number of days from 1970-01-01 to a
  civil date, and the civil date of a day number.
\<close>

definition days_from_civil :: "int \<Rightarrow> int \<Rightarrow> int \<Rightarrow> int" where
  "days_from_civil y m d =
     (let y' = (if m \<le> 2 then y - 1 else y);
          era = y' div 400;
          yoe = y' - era * 400;
          doy = (153 * (if 2 < m then m - 3 else m + 9) + 2) div 5 + d - 1;
          doe = yoe * 365 + yoe div 4 - yoe div 100 + doy
      in era * 146097 + doe - 719468)"

definition civil_from_days :: "int \<Rightarrow> int \<times> int \<times> int" where
  "civil_from_days z =
     (let z' = z + 719468;
          era = z' div 146097;
          doe = z' - era * 146097;
          yoe = (doe - doe div 1460 + doe div 36524 - doe div 146096) div 365;
          doy = doe - (365 * yoe + yoe div 4 - yoe div 100);
          mp = (5 * doy + 2) div 153;
          d = doy - (153 * mp + 2) div 5 + 1;
          m = (if mp < 10 then mp + 3 else mp - 9)
      in (if m \<le> 2 then yoe + era * 400 + 1 else yoe + era * 400, m, d))"

definition usec_per_day :: int where
  "usec_per_day = 86400000000"

definition days :: "int \<Rightarrow> int" where
  "days n = n * usec_per_day"

text \<open>\<^verbatim>\<open>t.replace(hour=0, minute=0, second=0, microsecond=0)\<close>\<close>

definition midnight :: "instant \<Rightarrow> instant" where
  "midnight t = t - t mod usec_per_day"

text \<open>\<^verbatim>\<open>t.replace(hour=23, minute=59, second=59)\<close>: the microsecond of \<open>t\<close> is kept.\<close>

definition last_second :: "instant \<Rightarrow> instant" where
  "last_second t = midnight t + 86399000000 + t mod 1000000"

text \<open>\<^verbatim>\<open>t.weekday()\<close>, Monday is 0; 1970-01-01 was a Thursday.\<close>

definition weekday :: "instant \<Rightarrow> int" where
  "weekday t = (t div usec_per_day + 3) mod 7"

text \<open>\<^verbatim>\<open>t.replace(day=1)\<close>\<close>

definition first_of_month :: "instant \<Rightarrow> instant" where
  "first_of_month t =
     (case civil_from_days (t div usec_per_day) of (y, m, d) \<Rightarrow> t - days (d - 1))"

text \<open>
  \<^verbatim>\<open>datetime(year, month, 1, tzinfo=timezone.utc)\<close>: a year outside 1..9999 raises
  \<^verbatim>\<open>ValueError\<close>. The parser calls it with a year read from four digits, or that year plus
  one, so the only years out of range are 0 and 10000.
\<close>

definition datetime_utc :: "int \<Rightarrow> int \<Rightarrow> string + instant" where
  "datetime_utc y m =
     (if y < 1 then Inl ''year 0 is out of range''
      else if 9999 < y then Inl ''year 10000 is out of range''
      else Inr (days (days_from_civil y m 1)))"

section \<open>The query parser: \<^verbatim>\<open>_parse_query\<close>\<close>

text \<open>
  The three sender patterns, each split at its group:
  \<^verbatim>\<open>from\\s+([a-zA-Z0-9._%+-]+@[a-zA-Z0-9.-]+\\.[a-zA-Z]{2,})\<close>, \<^verbatim>\<open>from\\s+(\\w+)\<close> and
  \<^verbatim>\<open>sender:?\\s*([a-zA-Z0-9._%+-]+@[a-zA-Z0-9.-]+\\.[a-zA-Z]{2,})\<close>.
\<close>

definition email_address :: matcher where
  "email_address =
     seq (plus is_email_local) (seq (lit ''@'') (seq (plus is_email_domain)
       (seq (lit ''.'') (seq (one is_alpha) (seq (one is_alpha) (star is_alpha))))))"

definition sender_patterns :: "group_pattern list" where
  "sender_patterns =
     [(seq (lit ''from'') (plus is_space), email_address),
      (seq (lit ''from'') (plus is_space), plus is_word),
      (seq (lit ''sender'') (seq (opt (lit '':'')) (star is_space)), email_address)]"

text \<open>
  The loop over the matches of one pattern. The matches were found on the query as it was
  before the loop; every iteration goes on with the query the one before it left. The
  pattern \<^verbatim>\<open>r'from\\s+' + re.escape(match)\<close> matches the text of \<open>match\<close> literally.
\<close>

fun sender_matches ::
  "group_pattern \<Rightarrow> string list \<Rightarrow> string \<times> SearchFilters \<Rightarrow> string \<times> SearchFilters" where
  "sender_matches pattern [] (query, filters) = (query, filters)"
| "sender_matches pattern (match # matches) (query, filters) =
     (if CHR ''@'' \<in> set match
      then sender_matches pattern matches
             (re_sub (whole pattern) [] query,
              filters\<lparr>sender_emails := sender_emails filters @ [match]\<rparr>)
      else sender_matches pattern matches
             (re_sub (seq (lit ''from'') (seq (plus is_space) (lit match))) [] query,
              filters\<lparr>keywords := keywords filters @ [match]\<rparr>))"

fun extract_senders ::
  "group_pattern list \<Rightarrow> string \<times> SearchFilters \<Rightarrow> string \<times> SearchFilters" where
  "extract_senders [] (query, filters) = (query, filters)"
| "extract_senders (pattern # rest) (query, filters) =
     extract_senders rest
       (sender_matches pattern (re_findall pattern query) (query, filters))"

text \<open>The patterns \<^verbatim>\<open>\\bv\\s+w\\b\<close> and \<^verbatim>\<open>\\bw\\b\<close> for words \<open>v\<close> and \<open>w\<close>.\<close>

definition two_words :: "string \<Rightarrow> string \<Rightarrow> matcher" where
  "two_words v w = seq wordb (seq (lit v) (seq (plus is_space) (seq (lit w) wordb)))"

definition one_word :: "string \<Rightarrow> matcher" where
  "one_word w = seq wordb (seq (lit w) wordb)"

text \<open>
  The table \<^verbatim>\<open>date_patterns\<close>, in the order of the dict literal. \<open>today\<close> is the instant of
  \<^verbatim>\<open>datetime.now(timezone.utc)\<close>, read once per call of the parser; every bound of the
  table is aware. The subtractions of
  the table can leave the range of \<^verbatim>\<open>datetime\<close> only for a clock in the year 1, which is
  not modelled.
\<close>

definition date_patterns :: "instant \<Rightarrow> (matcher \<times> datetime \<times> datetime) list" where
  "date_patterns today =
     [(one_word ''today'', Aware (midnight today), Aware today),
      (one_word ''yesterday'',
         Aware (midnight (today - days 1)), Aware (last_second (today - days 1))),
      (two_words ''last'' ''week'', Aware (today - days 7), Aware today),
      (two_words ''this'' ''week'', Aware (today - days (weekday today)), Aware today),
      (two_words ''last'' ''month'', Aware (today - days 30), Aware today),
      (two_words ''this'' ''month'', Aware (first_of_month today), Aware today),
      (two_words ''last'' ''year'', Aware (today - days 365), Aware today)]"

text \<open>The loop over the table: the first pattern found in the query wins (\<^verbatim>\<open>break\<close>).\<close>

fun extract_relative_date ::
  "(matcher \<times> datetime \<times> datetime) list \<Rightarrow> string \<times> SearchFilters \<Rightarrow> string \<times> SearchFilters"
  where
  "extract_relative_date [] (query, filters) = (query, filters)"
| "extract_relative_date ((pattern, d_from, d_to) # rest) (query, filters) =
     (if re_search pattern query
      then (re_sub pattern [] query, filters\<lparr>date_from := Some d_from, date_to := Some d_to\<rparr>)
      else extract_relative_date rest (query, filters))"

text \<open>
  \<^verbatim>\<open>\\b(january|...|december)\\s+(\\d{4})\\b\<close>. A match is the month name, the four digits and
  the whole matched text \<^verbatim>\<open>group(0)\<close>.
\<close>

definition month_names :: "string list" where
  "month_names = [''january'', ''february'', ''march'', ''april'', ''may'', ''june'', ''july'',
                  ''august'', ''september'', ''october'', ''november'', ''december'']"

definition month_num :: "string \<Rightarrow> int" where
  "month_num name = (case map_of (zip month_names [1, 2, 3, 4, 5, 6, 7, 8, 9, 10, 11, 12]) name of
                       None \<Rightarrow> 0 | Some n \<Rightarrow> n)"

definition four_digits :: matcher where
  "four_digits = seq (one is_digit) (seq (one is_digit) (seq (one is_digit) (one is_digit)))"

definition month_year :: "pos \<Rightarrow> (string \<times> string \<times> string) list" where
  "month_year p =
     [(name, between p2 p3, between p0 p4).
        p0 \<leftarrow> wordb p, name \<leftarrow> month_names, p1 \<leftarrow> lit name p0, p2 \<leftarrow> plus is_space p1,
        p3 \<leftarrow> four_digits p2, p4 \<leftarrow> wordb p3]"

text \<open>\<^verbatim>\<open>int(year)\<close> of a string of decimal digits.\<close>

definition digit_value :: "char \<Rightarrow> int" where
  "digit_value c = (case map_of (zip ''0123456789'' [0, 1, 2, 3, 4, 5, 6, 7, 8, 9]) c of
                      None \<Rightarrow> 0 | Some n \<Rightarrow> n)"

definition int_of_digits :: "string \<Rightarrow> int" where
  "int_of_digits s = foldl (\<lambda>n c. 10 * n + digit_value c) 0 s"

text \<open>
  The month and year block. \<^verbatim>\<open>re.sub(month_match.group(0), '', query)\<close> uses the matched
  text as a pattern; it consists of letters, white space and digits, so it matches itself.
  The two calls of \<^verbatim>\<open>datetime(...)\<close> can raise, which leaves the block.
\<close>

definition extract_month ::
  "string \<times> SearchFilters \<Rightarrow> string + (string \<times> SearchFilters)" where
  "extract_month qf =
     (case qf of (query, filters) \<Rightarrow>
        (case re_find month_year query of
           None \<Rightarrow> Inr (query, filters)
         | Some (month_name, year, group0) \<Rightarrow>
             (case datetime_utc (int_of_digits year) (month_num month_name) of
                Inl e \<Rightarrow> Inl e
              | Inr d_from \<Rightarrow>
                  (case (if month_num month_name = 12
                         then datetime_utc (int_of_digits year + 1) 1
                         else datetime_utc (int_of_digits year) (month_num month_name + 1)) of
                     Inl e \<Rightarrow> Inl e
                   | Inr d_to \<Rightarrow>
                       Inr (re_sub (lit group0) [] query,
                            filters\<lparr>date_from := Some (Aware d_from),
                                    date_to := Some (Aware d_to)\<rparr>)))))"

definition extract_flags :: "string \<times> SearchFilters \<Rightarrow> string \<times> SearchFilters" where
  "extract_flags qf =
     (case qf of (query, filters) \<Rightarrow>
        (let (query, filters) =
               (if str_contains ''important'' query
                then (str_remove ''important'' query, filters\<lparr>is_important := Some True\<rparr>)
                else (query, filters))
         in if str_contains ''attachment'' query
            then (str_remove ''attachments'' (str_remove ''attachment'' query),
                  filters\<lparr>SearchFilters.has_attachments := Some True\<rparr>)
            else (query, filters)))"

definition label_patterns :: "(matcher \<times> string) list" where
  "label_patterns =
     [(one_word ''inbox'', ''INBOX''), (one_word ''sent'', ''SENT''),
      (one_word ''draft'', ''DRAFT''), (one_word ''spam'', ''SPAM''),
      (one_word ''trash'', ''TRASH'')]"

fun extract_labels ::
  "(matcher \<times> string) list \<Rightarrow> string \<times> SearchFilters \<Rightarrow> string \<times> SearchFilters" where
  "extract_labels [] (query, filters) = (query, filters)"
| "extract_labels ((pattern, label) # rest) (query, filters) =
     (if re_search pattern query
      then extract_labels rest
             (re_sub pattern [] query,
              filters\<lparr>SearchFilters.labels := SearchFilters.labels filters @ [label]\<rparr>)
      else extract_labels rest (query, filters))"

text \<open>\<^verbatim>\<open>\\b(about|regarding|re:|fw:)\\b\<close>\<close>

definition connectors :: matcher where
  "connectors =
     seq wordb (seq (alts [lit ''about'', lit ''regarding'', lit ''re:'', lit ''fw:'']) wordb)"

definition clean_up :: "string \<Rightarrow> string" where
  "clean_up query =
     strip (re_sub connectors [] (strip (re_sub (plus is_space) '' '' query)))"

definition remaining_keywords :: "string \<Rightarrow> string list" where
  "remaining_keywords query =
     (if query \<noteq> [] then filter (\<lambda>word. 2 < length (strip word)) (map strip (split query))
      else [])"

definition determine_search_type :: "string \<Rightarrow> SearchFilters \<Rightarrow> SearchType" where
  "determine_search_type cleaned filters =
     (if cleaned \<noteq> [] \<and> 3 < length cleaned
      then (if sender_emails filters \<noteq> [] \<or> date_from filters \<noteq> None \<or>
               SearchFilters.labels filters \<noteq> []
            then FILTERED else HYBRID)
      else KEYWORD)"

definition empty_filters :: SearchFilters where
  "empty_filters =
     \<lparr>sender_emails = [], date_from = None, date_to = None, SearchFilters.labels = [],
      SearchFilters.has_attachments = None, is_important = None, keywords = []\<rparr>"

text \<open>
  The body of the \<^verbatim>\<open>try\<close> block: the filters, the cleaned query and the search type, or the
  message of the exception that left the block.
\<close>

definition parse_body ::
  "instant \<Rightarrow> string \<Rightarrow> string + (SearchFilters \<times> string \<times> SearchType)" where
  "parse_body today raw_query =
     (case extract_month
             (extract_relative_date (date_patterns today)
                (extract_senders sender_patterns (strip (lower raw_query), empty_filters))) of
        Inl e \<Rightarrow> Inl e
      | Inr qf \<Rightarrow>
          (case extract_labels label_patterns (extract_flags qf) of (query, filters) \<Rightarrow>
             (let query = clean_up query;
                  filters = filters\<lparr>keywords := keywords filters @ remaining_keywords query\<rparr>;
                  cleaned = (if keywords filters \<noteq> [] then join '' '' (keywords filters)
                             else query)
              in Inr (filters, cleaned, determine_search_type cleaned filters))))"

section \<open>The workflow state and the parse stage\<close>

record SearchState =
  query :: string
  account_id :: int
  max_results :: int
  search_type :: SearchType
  filters :: SearchFilters
  cleaned_query :: string
  query_vector :: "real list"
  keyword_results :: "SearchResult list"
  semantic_results :: "SearchResult list"
  final_results :: "SearchResult list"
  total_keyword_matches :: int
  total_semantic_matches :: int
  total_final_results :: int
  processing_time :: real
  errors :: "string list"
  start_time :: real

text \<open>
  \<^verbatim>\<open>SearchState(query=query, account_id=account_id, max_results=max_results)\<close> with the
  defaults of the dataclass; \<open>now\<close> is the reading of \<^verbatim>\<open>time.time()\<close>.
\<close>

definition initial_state :: "real \<Rightarrow> string \<Rightarrow> int \<Rightarrow> int \<Rightarrow> SearchState" where
  "initial_state now q account cap =
     \<lparr>query = q, account_id = account, max_results = cap, search_type = HYBRID,
      filters = empty_filters, cleaned_query = [], query_vector = [],
      keyword_results = [], semantic_results = [], final_results = [],
      total_keyword_matches = 0, total_semantic_matches = 0, total_final_results = 0,
      processing_time = 0, errors = [], start_time = now\<rparr>"

text \<open>
  \<^verbatim>\<open>_parse_query\<close>: the three assignments to the state are the last statements of the
  \<^verbatim>\<open>try\<close> block, so an exception leaves the state as it was, but for the error message.
\<close>

definition parse_query :: "instant \<Rightarrow> SearchState \<Rightarrow> SearchState" where
  "parse_query today state =
     (case parse_body today (query state) of
        Inl e \<Rightarrow> state\<lparr>errors := errors state @ [''Failed to parse query: '' @ e]\<rparr>
      | Inr (parsed, cleaned, chosen) \<Rightarrow>
          state\<lparr>filters := parsed, cleaned_query := cleaned, search_type := chosen\<rparr>)"


section \<open>The fusion and filter stages\<close>

text \<open>
  \<^verbatim>\<open>_fuse_results\<close>. Its \<^verbatim>\<open>try\<close> block works on ids, scores and tags only; with ids that
  are ints and scores that are numbers nothing in it raises, so the \<^verbatim>\<open>except\<close> branch has
  no counterpart here.
\<close>

definition fuse_results :: "SearchState \<Rightarrow> SearchState" where
  "fuse_results state =
     state\<lparr>final_results :=
             fuse (keyword_results state) (semantic_results state) (max_results state)\<rparr>"

text \<open>
  \<^verbatim>\<open>_apply_filters\<close>: when the loop raises, \<^verbatim>\<open>state.final_results\<close> is not assigned and the
  message is appended to the errors.
\<close>

definition apply_filters :: "SearchState \<Rightarrow> SearchState" where
  "apply_filters state =
     (case apply_filters_loop (filters state) (final_results state) [] of
        Inl e \<Rightarrow> state\<lparr>errors := errors state @ [''Filter application failed: '' @ e]\<rparr>
      | Inr filtered_results \<Rightarrow> state\<lparr>final_results := filtered_results\<rparr>)"

section \<open>The collaborators of the workflow\<close>

text \<open>
  What the workflow reads of an \<^verbatim>\<open>EmbeddingResult\<close>. The embedding service is a function
  from the text to the result of \<^verbatim>\<open>generate_single_embedding\<close>, or to the message of the
  exception it raised.
\<close>

record EmbeddingResult =
  vector :: "real list"
  success :: bool
  error_message :: "string option"

text \<open>
  A row of the keyword query: \<^verbatim>\<open>id, external_message_id, subject, snippet, sender_email,
  sender_name, date_sent, labels, has_attachments\<close>; a column that can be \<^verbatim>\<open>NULL\<close> is an
  option. A row of the lookup by vector id: \<^verbatim>\<open>message_id, external_message_id, subject,
  snippet, sender_email, date_sent\<close>.
\<close>

type_synonym email_row =
  "int \<times> string \<times> string option \<times> string option \<times> string \<times> string option \<times>
   datetime \<times> string list option \<times> bool option"

type_synonym vector_row =
  "int \<times> string \<times> string option \<times> string option \<times> string \<times> datetime option"

text \<open>
  The vector store as \<^verbatim>\<open>QdrantService\<close> uses it: \<^verbatim>\<open>client.search\<close> maps the query vector,
  the limit and the score threshold to the hits (vector id and score) or to the message of
  the exception it raised; the relational store maps a vector id to its row, to no row, or
  to the message of an exception.
\<close>

record QdrantService =
  client_search :: "real list \<Rightarrow> int \<Rightarrow> real \<Rightarrow> string + (string \<times> real) list"
  fetch_row :: "string \<Rightarrow> string + vector_row option"

text \<open>
  Everything outside the workflow that a search depends on: the two services (\<^verbatim>\<open>None\<close>
  when their construction failed), the relational store as the keyword query sees it
  (account id, the \<^verbatim>\<open>LIKE\<close> patterns and the limit to the rows, or to the message of an
  exception), the two conversions between datetimes and ISO strings, and the clock
  readings: \<^verbatim>\<open>time.time()\<close> at the start and at the end, \<^verbatim>\<open>datetime.now(timezone.utc)\<close> in
  the parser and in the semantic stage.
\<close>

record Services =
  embedding_service :: "(string \<Rightarrow> string + EmbeddingResult) option"
  qdrant_service :: "QdrantService option"
  execute_query :: "int \<Rightarrow> string list \<Rightarrow> int \<Rightarrow> string + email_row list"
  isoformat :: "datetime \<Rightarrow> string"
  fromisoformat :: "string \<Rightarrow> string + datetime"
  time_start :: real
  time_end :: real
  clock_parser :: instant
  clock_semantic :: instant

section \<open>The vector stage: \<^verbatim>\<open>_generate_query_vector\<close>\<close>

definition str_of_optional :: "string option \<Rightarrow> string" where
  "str_of_optional s = (case s of None \<Rightarrow> ''None'' | Some t \<Rightarrow> t)"

definition generate_query_vector :: "Services \<Rightarrow> SearchState \<Rightarrow> SearchState" where
  "generate_query_vector env state =
     (if search_type state \<in> set [SEMANTIC, HYBRID, FILTERED]
      then (case embedding_service env of
              None \<Rightarrow> state
            | Some generate_single_embedding \<Rightarrow>
                if cleaned_query state = [] then state
                else (case generate_single_embedding (cleaned_query state) of
                        Inl e \<Rightarrow>
                          state\<lparr>errors := errors state @ [''Vector generation error: '' @ e]\<rparr>
                      | Inr result \<Rightarrow>
                          if success result then state\<lparr>query_vector := vector result\<rparr>
                          else state\<lparr>errors := errors state @
                                 [''Failed to generate vector: '' @
                                  str_of_optional (error_message result)]\<rparr>))
      else state)"

section \<open>The keyword stage: \<^verbatim>\<open>_keyword_search\<close>\<close>

definition or_empty :: "string option \<Rightarrow> string" where
  "or_empty s = (case s of None \<Rightarrow> [] | Some t \<Rightarrow> t)"

text \<open>\<^verbatim>\<open>_calculate_keyword_score\<close>: two points for a term in the subject, one for a term in the
  snippet, divided by the number of terms.\<close>

definition calculate_keyword_score ::
  "string option \<Rightarrow> string option \<Rightarrow> string list \<Rightarrow> real" where
  "calculate_keyword_score subject_col snippet_col search_terms =
     (if search_terms = [] then 0
      else (let subject_text = lower (or_empty subject_col);
                snippet_text = lower (or_empty snippet_col);
                total = foldl (\<lambda>acc term.
                            (let term_lower = lower term;
                                 acc = (if str_contains term_lower subject_text then acc + 2 else acc)
                             in if str_contains term_lower snippet_text then acc + 1 else acc))
                          0 search_terms
            in total / real (length search_terms)))"

definition row_result :: "string list \<Rightarrow> email_row \<Rightarrow> SearchResult" where
  "row_result search_terms row =
     (case row of (c0, c1, c2, c3, c4, c5, c6, c7, c8) \<Rightarrow>
        \<lparr>message_id = c0, external_message_id = c1, subject = or_empty c2,
         snippet = or_empty c3, sender_email = c4, sender_name = or_empty c5, date_sent = c6,
         relevance_score = calculate_keyword_score c2 c3 search_terms,
         SearchResult.search_type = ''keyword'',
         SearchResult.labels = (case c7 of None \<Rightarrow> [] | Some ls \<Rightarrow> ls),
         SearchResult.has_attachments = (case c8 of None \<Rightarrow> False | Some b \<Rightarrow> b)\<rparr>)"

text \<open>
  The stage. The store is queried only under the guard
  \<^verbatim>\<open>if state.cleaned_query or state.filters.keywords\<close>; without it the list of results stays
  empty. Every condition of the query is \<^verbatim>\<open>LIKE '%term%'\<close> on the lower-cased term; the
  store orders by \<^verbatim>\<open>date_sent DESC\<close> and cuts at the limit, and the rows are then sorted
  by score.
\<close>

definition keyword_search :: "Services \<Rightarrow> SearchState \<Rightarrow> SearchState" where
  "keyword_search env state =
     (if cleaned_query state \<noteq> [] \<or> keywords (filters state) \<noteq> []
      then (let search_terms = (if keywords (filters state) \<noteq> [] then keywords (filters state)
                                else [cleaned_query state])
            in case execute_query env (account_id state)
                      (map (\<lambda>term. ''%'' @ lower term @ ''%'') search_terms) (max_results state) of
                 Inl e \<Rightarrow> state\<lparr>errors := errors state @ [''Keyword search failed: '' @ e]\<rparr>
               | Inr rows \<Rightarrow>
                   state\<lparr>keyword_results := sort_by_relevance (map (row_result search_terms) rows),
                         total_keyword_matches := int (length rows)\<rparr>)
      else state\<lparr>keyword_results := sort_by_relevance [], total_keyword_matches := 0\<rparr>)"

section \<open>The semantic stage: \<^verbatim>\<open>search_similar_vectors\<close> and \<^verbatim>\<open>_semantic_search\<close>\<close>

text \<open>
  \<^verbatim>\<open>QdrantService._get_email_data_by_vector_id\<close>: the row as a dict, or \<^verbatim>\<open>None\<close> when there
  is no row or the lookup raised. The result is the hit joined with its row.
\<close>

definition get_email_data_by_vector_id ::
  "Services \<Rightarrow> QdrantService \<Rightarrow> string \<Rightarrow> real \<Rightarrow> VectorSearchResult option" where
  "get_email_data_by_vector_id env service vector_id hit_score =
     (case fetch_row service vector_id of
        Inl e \<Rightarrow> None
      | Inr None \<Rightarrow> None
      | Inr (Some (c0, c1, c2, c3, c4, c5)) \<Rightarrow>
          Some \<lparr>VectorSearchResult.message_id = c0,
                VectorSearchResult.external_message_id = c1,
                score = hit_score,
                VectorSearchResult.subject = or_empty c2,
                VectorSearchResult.snippet = or_empty c3,
                VectorSearchResult.sender_email = c4,
                VectorSearchResult.date_sent =
                  (case c5 of None \<Rightarrow> [] | Some d \<Rightarrow> isoformat env d)\<rparr>)"

text \<open>
  \<^verbatim>\<open>QdrantService.search_similar_vectors\<close>: its whole body is inside
  \<^verbatim>\<open>try ... except Exception: return []\<close>, so an exception of the vector store gives the
  empty list.
\<close>

definition search_similar_vectors ::
  "Services \<Rightarrow> QdrantService \<Rightarrow> real list \<Rightarrow> int \<Rightarrow> real \<Rightarrow> VectorSearchResult list" where
  "search_similar_vectors env service query_vec limit score_threshold =
     (case client_search service query_vec limit score_threshold of
        Inl e \<Rightarrow> []
      | Inr search_results \<Rightarrow>
          List.map_filter (\<lambda>hit. get_email_data_by_vector_id env service (fst hit) (snd hit))
            search_results)"

text \<open>
  The loop of \<^verbatim>\<open>_semantic_search\<close> over the vector results; \<^verbatim>\<open>datetime.fromisoformat\<close> can
  raise, which leaves the loop.
\<close>

fun convert_vector_results ::
  "Services \<Rightarrow> VectorSearchResult list \<Rightarrow> string + SearchResult list" where
  "convert_vector_results env [] = Inr []"
| "convert_vector_results env (v # rest) =
     (case (if VectorSearchResult.date_sent v \<noteq> []
            then fromisoformat env (VectorSearchResult.date_sent v)
            else Inr (Aware (clock_semantic env))) of
        Inl e \<Rightarrow> Inl e
      | Inr d \<Rightarrow>
          (case convert_vector_results env rest of
             Inl e \<Rightarrow> Inl e
           | Inr results \<Rightarrow>
               Inr (\<lparr>message_id = VectorSearchResult.message_id v,
                     external_message_id = VectorSearchResult.external_message_id v,
                     subject = VectorSearchResult.subject v,
                     snippet = VectorSearchResult.snippet v,
                     sender_email = VectorSearchResult.sender_email v,
                     sender_name = [], date_sent = d, relevance_score = score v,
                     SearchResult.search_type = ''semantic'', SearchResult.labels = [],
                     SearchResult.has_attachments = False\<rparr> # results)))"

definition semantic_search :: "Services \<Rightarrow> SearchState \<Rightarrow> SearchState" where
  "semantic_search env state =
     (case qdrant_service env of
        None \<Rightarrow> state
      | Some service \<Rightarrow>
          if query_vector state = [] then state
          else (case convert_vector_results env
                       (search_similar_vectors env service (query_vector state)
                          (max_results state) 0.3) of
                  Inl e \<Rightarrow> state\<lparr>errors := errors state @ [''Semantic search failed: '' @ e]\<rparr>
                | Inr results \<Rightarrow>
                    state\<lparr>semantic_results := results,
                          total_semantic_matches := int (length results)\<rparr>))"

section \<open>The last stage and the report: \<^verbatim>\<open>_finalize_results\<close>, \<^verbatim>\<open>search_emails\<close>\<close>

definition finalize_results :: "Services \<Rightarrow> SearchState \<Rightarrow> SearchState" where
  "finalize_results env state =
     state\<lparr>processing_time := time_end env - start_time state,
           total_final_results := int (length (final_results state))\<rparr>"

text \<open>\<^verbatim>\<open>round(x, 3)\<close> on the exact real: to the nearest thousandth, a tie to the even one.\<close>

definition round3 :: "real \<Rightarrow> real" where
  "round3 x =
     (let y = x * 1000; f = \<lfloor>y\<rfloor>; d = y - of_int f;
          n = (if d < 1 / 2 then f else if 1 / 2 < d then f + 1
               else if even f then f else f + 1)
      in of_int n / 1000)"

definition search_type_value :: "SearchType \<Rightarrow> string" where
  "search_type_value t =
     (case t of SEMANTIC \<Rightarrow> ''semantic'' | KEYWORD \<Rightarrow> ''keyword''
      | HYBRID \<Rightarrow> ''hybrid'' | FILTERED \<Rightarrow> ''filtered'')"

text \<open>
  The dict of one result and the dict that \<^verbatim>\<open>search_emails\<close> returns, as records; the
  field of a key \<^verbatim>\<open>k\<close> is \<open>item_k\<close> or \<open>report_k\<close>.
\<close>

record ResultItem =
  item_message_id :: int
  item_external_message_id :: string
  item_subject :: string
  item_snippet :: string
  item_sender_email :: string
  item_sender_name :: string
  item_date_sent :: string
  item_relevance_score :: real
  item_search_type :: string
  item_has_attachments :: bool

record SearchReport =
  report_success :: bool
  report_query :: string
  report_search_type :: string
  report_total_results :: int
  report_results :: "ResultItem list"
  report_processing_time :: real
  report_statistics :: "int \<times> int \<times> int"
  report_errors :: "string list"

definition result_item :: "Services \<Rightarrow> SearchResult \<Rightarrow> ResultItem" where
  "result_item env result =
     \<lparr>item_message_id = message_id result,
      item_external_message_id = external_message_id result,
      item_subject = subject result, item_snippet = snippet result,
      item_sender_email = sender_email result, item_sender_name = sender_name result,
      item_date_sent = isoformat env (date_sent result),
      item_relevance_score = round3 (relevance_score result),
      item_search_type = SearchResult.search_type result,
      item_has_attachments = SearchResult.has_attachments result\<rparr>"

text \<open>
  The graph of \<^verbatim>\<open>_create_workflow\<close> is a chain, so \<^verbatim>\<open>workflow.invoke\<close> applies the seven
  stages in the order of its edges.
\<close>

definition run_workflow :: "Services \<Rightarrow> SearchState \<Rightarrow> SearchState" where
  "run_workflow env initial =
     finalize_results env (apply_filters (fuse_results (semantic_search env
       (keyword_search env (generate_query_vector env
          (parse_query (clock_parser env) initial))))))"

definition search_emails :: "Services \<Rightarrow> string \<Rightarrow> int \<Rightarrow> int \<Rightarrow> SearchReport" where
  "search_emails env q account cap =
     (let final_state = run_workflow env (initial_state (time_start env) q account cap);
          results = map (result_item env) (final_results final_state)
      in \<lparr>report_success = (length (errors final_state) = 0),
          report_query = q,
          report_search_type = search_type_value (search_type final_state),
          report_total_results = int (length results),
          report_results = results,
          report_processing_time = round3 (processing_time final_state),
          report_statistics = (total_keyword_matches final_state,
                               total_semantic_matches final_state,
                               total_final_results final_state),
          report_errors = errors final_state\<rparr>)"

section \<open>Auxiliary predicates for the proofs\<close>

text \<open>The dict invariant: keys are distinct and every value is stored under its own id.\<close>

definition keys_ok :: "combined \<Rightarrow> bool" where
  "keys_ok c = (distinct (map fst c) \<and> (\<forall>kv \<in> set c. message_id (snd kv) = fst kv))"

text \<open>
  The predicate a result must satisfy to get past every \<^verbatim>\<open>continue\<close> of the filter loop,
  when no comparison raises.
\<close>

definition survives :: "SearchFilters \<Rightarrow> SearchResult \<Rightarrow> bool" where
  "survives f r =
    ((sender_emails f = [] \<or> (\<exists>s \<in> set (sender_emails f). str_contains s (lower (sender_email r)))) \<and>
     (case date_from f of None \<Rightarrow> True | Some d \<Rightarrow> reading d \<le> reading (date_sent r)) \<and>
     (case date_to f of None \<Rightarrow> True | Some d \<Rightarrow> reading (date_sent r) \<le> reading d) \<and>
     (case is_important f of None \<Rightarrow> True | Some imp \<Rightarrow> (''IMPORTANT'' \<in> set (SearchResult.labels r)) = imp) \<and>
     (case SearchFilters.has_attachments f of None \<Rightarrow> True | Some att \<Rightarrow> SearchResult.has_attachments r = att) \<and>
     (SearchFilters.labels f = [] \<or> set (SearchResult.labels r) \<inter> set (SearchFilters.labels f) \<noteq> {}))"

text \<open>
  What the filter loop decides for one result: it is kept, it is dropped, or a date
  comparison raises.
\<close>

definition verdict :: "SearchFilters \<Rightarrow> SearchResult \<Rightarrow> string + bool" where
  "verdict f r =
     (if sender_emails f \<noteq> [] \<and>
         \<not> list_ex (\<lambda>sender. str_contains sender (lower (sender_email r))) (sender_emails f)
      then Inr False
      else case before_date_from f r of
        Inl e \<Rightarrow> Inl e
      | Inr True \<Rightarrow> Inr False
      | Inr False \<Rightarrow>
          (case after_date_to f r of
             Inl e \<Rightarrow> Inl e
           | Inr True \<Rightarrow> Inr False
           | Inr False \<Rightarrow>
               Inr (\<not> (case is_important f of None \<Rightarrow> False
                         | Some imp \<Rightarrow> imp \<noteq> (''IMPORTANT'' \<in> set (SearchResult.labels r))) \<and>
                    \<not> (case SearchFilters.has_attachments f of None \<Rightarrow> False
                         | Some att \<Rightarrow> att \<noteq> SearchResult.has_attachments r) \<and>
                    \<not> (SearchFilters.labels f \<noteq> [] \<and>
                       \<not> list_ex (\<lambda>label. label \<in> set (SearchResult.labels r))
                           (SearchFilters.labels f)))))"

text \<open>
  The values the filter stage can receive. The filters come from the parser, which
  lower-cases the query before it reads senders from it and builds every date bound with
  \<^verbatim>\<open>timezone.utc\<close>. The results come from the store, whose \<^verbatim>\<open>date_sent\<close> column is
  \<^verbatim>\<open>TIMESTAMPTZ NOT NULL\<close>, so their dates are aware.
\<close>

definition parser_filters :: "SearchFilters \<Rightarrow> bool" where
  "parser_filters f =
     (list_all (\<lambda>s. lower s = s) (sender_emails f) \<and>
      (case date_from f of None \<Rightarrow> True | Some d \<Rightarrow> is_aware d) \<and>
      (case date_to f of None \<Rightarrow> True | Some d \<Rightarrow> is_aware d))"

definition store_results :: "SearchResult list \<Rightarrow> bool" where
  "store_results rs = list_all (\<lambda>r. is_aware (date_sent r)) rs"

text \<open>The sorted list of \<^verbatim>\<open>_fuse_results\<close> before the cut, \<^verbatim>\<open>fused_results\<close>.\<close>

definition fused_results :: "SearchResult list \<Rightarrow> SearchResult list \<Rightarrow> SearchResult list" where
  "fused_results kw sem = sort_by_relevance (map snd (combine kw sem))"

text \<open>The results of a list that carry a given message id.\<close>

definition hits :: "int \<Rightarrow> SearchResult list \<Rightarrow> SearchResult list" where
  "hits i rs = filter (\<lambda>x. message_id x = i) rs"

text \<open>
  Two filter values that agree everywhere but in the values of the two date bounds; the
  bounds are set in the one exactly when they are set in the other.
\<close>

definition same_but_dates :: "SearchFilters \<Rightarrow> SearchFilters \<Rightarrow> bool" where
  "same_but_dates f g =
     (sender_emails f = sender_emails g \<and>
      SearchFilters.labels f = SearchFilters.labels g \<and>
      SearchFilters.has_attachments f = SearchFilters.has_attachments g \<and>
      is_important f = is_important g \<and>
      keywords f = keywords g \<and>
      (date_from f = None) = (date_from g = None) \<and>
      (date_to f = None) = (date_to g = None))"

text \<open>
  The query, after the sender patterns have been taken out of it, contains one of the
  relative date phrases of \<^const>\<open>date_patterns\<close>.
\<close>

definition mentions_relative_date :: "string \<Rightarrow> bool" where
  "mentions_relative_date q =
     list_ex (\<lambda>pattern.
         re_search pattern (fst (extract_senders sender_patterns (strip (lower q), empty_filters))))
       (map fst (date_patterns 0))"

text \<open>What the parser does once senders and relative dates are out of the query.\<close>

definition parse_rest ::
  "string \<times> SearchFilters \<Rightarrow> string + (SearchFilters \<times> string \<times> SearchType)" where
  "parse_rest qf0 =
     (case extract_month qf0 of
        Inl e \<Rightarrow> Inl e
      | Inr qf \<Rightarrow>
          (case extract_labels label_patterns (extract_flags qf) of (q, f) \<Rightarrow>
             (let q = clean_up q;
                  f = f\<lparr>keywords := keywords f @ remaining_keywords q\<rparr>;
                  cleaned = (if keywords f \<noteq> [] then join '' '' (keywords f) else q)
              in Inr (f, cleaned, determine_search_type cleaned f))))"

text \<open>Two outcomes of the parser body that agree but for the values of the date bounds.\<close>

definition same_outcome ::
  "string + (SearchFilters \<times> string \<times> SearchType) \<Rightarrow>
   string + (SearchFilters \<times> string \<times> SearchType) \<Rightarrow> bool" where
  "same_outcome x y =
     (case x of
        Inl e \<Rightarrow> y = Inl e
      | Inr (f, c, t) \<Rightarrow>
          (case y of Inl e \<Rightarrow> False
           | Inr (g, c', t') \<Rightarrow> same_but_dates f g \<and> c = c' \<and> t = t'))"

text \<open>The state that reaches the semantic stage.\<close>

definition before_semantic :: "Services \<Rightarrow> string \<Rightarrow> int \<Rightarrow> int \<Rightarrow> SearchState" where
  "before_semantic env q account cap =
     keyword_search env (generate_query_vector env
       (parse_query (clock_parser env) (initial_state (time_start env) q account cap)))"

section \<open>Sample data\<close>

definition mk_result :: "int \<Rightarrow> string \<Rightarrow> real \<Rightarrow> string \<Rightarrow> SearchResult" where
  "mk_result i sender rel tag =
     \<lparr>message_id = i, external_message_id = ''ext'', subject = ''subject'',
      snippet = ''snippet'', sender_email = sender, sender_name = '''',
      date_sent = Aware 1733011200000000, relevance_score = rel, SearchResult.search_type = tag,
      SearchResult.labels = [], SearchResult.has_attachments = False\<rparr>"

text \<open>
  Two result lists that overlap in message 1: the keyword list has ids 1 and 2, the
  semantic list has ids 1 and 3. This is a shape the two searches produce under a cap of 2.
\<close>

definition overlap_keyword :: "SearchResult list" where
  "overlap_keyword =
     [mk_result 1 ''a@x.com'' 1 ''keyword'', mk_result 2 ''b@x.com'' 3 ''keyword'']"

definition overlap_semantic :: "SearchResult list" where
  "overlap_semantic =
     [mk_result 1 ''a@x.com'' 0.5 ''semantic'', mk_result 3 ''c@x.com'' 0.95 ''semantic'']"

text \<open>A state after the two searches: two keyword results, one semantic result, cap 1.\<close>

definition sample_state :: SearchState where
  "sample_state =
     (initial_state 0 ''invoice'' 1 1)
       \<lparr>keyword_results := [mk_result 1 ''a@x.com'' 2 ''keyword'',
                            mk_result 2 ''b@x.com'' 1 ''keyword''],
        semantic_results := [mk_result 3 ''c@x.com'' 0.5 ''semantic'']\<rparr>"

text \<open>
  A state before the filter stage: the parser has read the sender \<^verbatim>\<open>bob\<close> from the query,
  and two results are fused.
\<close>

definition filter_state :: SearchState where
  "filter_state =
     (initial_state 0 ''from bob'' 1 5)
       \<lparr>filters := empty_filters\<lparr>sender_emails := [''bob'']\<rparr>,
        final_results := [mk_result 2 ''eve@x.com'' 3 ''keyword'',
                          mk_result 1 ''Bob@x.com'' 1 ''keyword'']\<rparr>"

text \<open>
  Sample collaborators: an embedding service that answers every text with a vector, a
  vector store with one hit that belongs to message 7, a relational store that answers
  the keyword query with one row, message 1, and fixed clock readings. The two date
  conversions are those of the one date the samples use.
\<close>

definition sample_row :: email_row where
  "sample_row =
     (1, ''ext-1'', Some ''Invoice payment'', Some ''Your invoice is due'',
      ''billing@example.com'', Some ''Billing'', Aware 1733011200000000, Some [''INBOX''],
      Some False)"

definition sample_store :: QdrantService where
  "sample_store =
     \<lparr>client_search = (\<lambda>v l t. Inr [(''vec-7'', 0.9)]),
      fetch_row = (\<lambda>i. Inr (Some (7, ''ext-7'', Some ''Receipt'', Some ''Thanks'',
                                  ''sender0@example.com'', Some (Aware 1733011200000000))))\<rparr>"

definition sample_services :: Services where
  "sample_services =
     \<lparr>embedding_service =
        Some (\<lambda>text. Inr \<lparr>vector = [0.1, 0.2], success = True, error_message = None\<rparr>),
      qdrant_service = Some sample_store,
      execute_query = (\<lambda>account patterns limit. Inr [sample_row]),
      isoformat = (\<lambda>d. ''2024-12-01T00:00:00+00:00''),
      fromisoformat = (\<lambda>s. Inr (Aware 1733011200000000)),
      time_start = 0, time_end = 1,
      clock_parser = 1793000000000000, clock_semantic = 1793000000000000\<rparr>"

text \<open>The same collaborators with a vector store whose client raises on every search.\<close>

definition failing_store :: QdrantService where
  "failing_store = sample_store\<lparr>client_search := (\<lambda>v l t. Inl ''connection refused'')\<rparr>"

definition failing_services :: Services where
  "failing_services = sample_services\<lparr>qdrant_service := Some failing_store\<rparr>"

text \<open>The sample collaborators with a date conversion that raises on every string.\<close>

definition bad_dates_services :: Services where
  "bad_dates_services =
     sample_services\<lparr>fromisoformat := (\<lambda>s. Inl ''Invalid isoformat string'')\<rparr>"

section \<open>Fusion and filter: lemmas\<close>


lemma set_update_subset: "set (AList.update k v al) \<subseteq> insert (k, v) (set al)"
  by (induction al) auto

lemma keys_ok_update: "keys_ok c \<Longrightarrow> message_id v = k \<Longrightarrow> keys_ok (AList.update k v c)"
  unfolding keys_ok_def using set_update_subset[of k v c]
  by (auto simp: distinct_update)

lemma keys_ok_lookup: "keys_ok c \<Longrightarrow> map_of c k = Some v \<Longrightarrow> message_id v = k"
  unfolding keys_ok_def by (auto dest!: map_of_SomeD)

lemma add_keyword_result_keys_ok: "keys_ok c \<Longrightarrow> keys_ok (add_keyword_result c r)"
  unfolding add_keyword_result_def Let_def
  by (auto split: option.splits intro!: keys_ok_update dest: keys_ok_lookup)

lemma add_semantic_result_keys_ok: "keys_ok c \<Longrightarrow> keys_ok (add_semantic_result c r)"
  unfolding add_semantic_result_def Let_def
  by (auto split: option.splits intro!: keys_ok_update dest: keys_ok_lookup)

lemma foldl_keyword_keys_ok: "keys_ok c \<Longrightarrow> keys_ok (foldl add_keyword_result c rs)"
  by (induction rs arbitrary: c) (simp_all add: add_keyword_result_keys_ok)

lemma foldl_semantic_keys_ok: "keys_ok c \<Longrightarrow> keys_ok (foldl add_semantic_result c rs)"
  by (induction rs arbitrary: c) (simp_all add: add_semantic_result_keys_ok)

lemma combine_keys_ok: "keys_ok (combine kw sem)"
  unfolding combine_def
  by (intro foldl_semantic_keys_ok foldl_keyword_keys_ok) (simp add: keys_ok_def)

lemma keys_ok_ids: "keys_ok c \<Longrightarrow> map message_id (map snd c) = map fst c"
  by (induction c) (auto simp: keys_ok_def)

lemma distinct_ids_combine: "distinct (map message_id (map snd (combine kw sem)))"
proof -
  have "keys_ok (combine kw sem)" by (rule combine_keys_ok)
  then show ?thesis unfolding keys_ok_ids[OF \<open>keys_ok (combine kw sem)\<close>] by (simp add: keys_ok_def)
qed

lemma distinct_ids_sort:
  "distinct (map message_id (sort_by_relevance rs)) = distinct (map message_id rs)"
proof -
  have "mset (sort_by_relevance rs) = mset rs"
    by (simp add: sort_by_relevance_def)
  then have "mset (map message_id (sort_by_relevance rs)) = mset (map message_id rs)"
    by (metis mset_map)
  then show ?thesis by (rule mset_eq_imp_distinct_iff)
qed

lemma distinct_ids_slice:
  "distinct (map message_id rs) \<Longrightarrow> distinct (map message_id (py_slice_to rs n))"
  by (simp add: py_slice_to_def take_map[symmetric] distinct_take del: take_map)

lemma distinct_ids_fuse: "distinct (map message_id (fuse kw sem n))"
  unfolding fuse_def Let_def
  by (intro distinct_ids_slice) (simp only: distinct_ids_sort distinct_ids_combine)

lemma length_py_slice_to: "0 \<le> n \<Longrightarrow> length (py_slice_to xs n) \<le> nat n"
  by (simp add: py_slice_to_def)

lemma str_contains_sublist: "str_contains s t = sublist s t"
  by (induction t) (auto simp: sublist_Cons_right)

lemma apply_filters_loop_step:
  "apply_filters_loop f (r # rest) acc =
     (case verdict f r of
        Inl e \<Rightarrow> Inl e
      | Inr keep \<Rightarrow> apply_filters_loop f rest (if keep then acc @ [r] else acc))"
proof (cases "before_date_from f r")
  case (Inl e)
  then show ?thesis by (simp add: verdict_def)
next
  case b: (Inr x)
  show ?thesis
  proof (cases "after_date_to f r")
    case (Inl e)
    with b show ?thesis by (cases x) (simp_all add: verdict_def)
  next
    case (Inr y)
    with b show ?thesis by (cases x; cases y) (simp_all add: verdict_def)
  qed
qed

declare apply_filters_loop.simps(2) [simp del]

lemma apply_filters_loop_kept:
  "apply_filters_loop f rs acc = Inr out \<Longrightarrow>
   out = acc @ filter (\<lambda>r. verdict f r = Inr True) rs"
proof (induction rs arbitrary: acc)
  case Nil
  then show ?case by simp
next
  case (Cons r rs)
  show ?case
  proof (cases "verdict f r")
    case (Inl e)
    with Cons.prems show ?thesis by (simp add: apply_filters_loop_step)
  next
    case (Inr keep)
    with Cons.prems have "apply_filters_loop f rs (if keep then acc @ [r] else acc) = Inr out"
      by (simp add: apply_filters_loop_step)
    then have "out = (if keep then acc @ [r] else acc) @ filter (\<lambda>r. verdict f r = Inr True) rs"
      by (rule Cons.IH)
    with Inr show ?thesis by simp
  qed
qed

lemma date_tests_aware:
  assumes "parser_filters f" and "is_aware (date_sent r)"
  shows "before_date_from f r =
           Inr (case date_from f of None \<Rightarrow> False | Some d \<Rightarrow> reading (date_sent r) < reading d)"
    and "after_date_to f r =
           Inr (case date_to f of None \<Rightarrow> False | Some d \<Rightarrow> reading d < reading (date_sent r))"
  using assms
  by (auto simp add: parser_filters_def before_date_from_def after_date_to_def dt_less_def
      split: option.splits)

lemma verdict_aware:
  assumes "parser_filters f" and "is_aware (date_sent r)"
  shows "verdict f r = Inr (survives f r)"
proof -
  have "verdict f r =
     Inr (\<not> (sender_emails f \<noteq> [] \<and>
              \<not> list_ex (\<lambda>sender. str_contains sender (lower (sender_email r))) (sender_emails f)) \<and>
          \<not> (case date_from f of None \<Rightarrow> False | Some d \<Rightarrow> reading (date_sent r) < reading d) \<and>
          \<not> (case date_to f of None \<Rightarrow> False | Some d \<Rightarrow> reading d < reading (date_sent r)) \<and>
          \<not> (case is_important f of None \<Rightarrow> False
               | Some imp \<Rightarrow> imp \<noteq> (''IMPORTANT'' \<in> set (SearchResult.labels r))) \<and>
          \<not> (case SearchFilters.has_attachments f of None \<Rightarrow> False
               | Some att \<Rightarrow> att \<noteq> SearchResult.has_attachments r) \<and>
          \<not> (SearchFilters.labels f \<noteq> [] \<and>
             \<not> list_ex (\<lambda>label. label \<in> set (SearchResult.labels r)) (SearchFilters.labels f)))"
    unfolding verdict_def date_tests_aware [OF assms] by (simp split: bool.splits)
  also have "\<dots> = Inr (survives f r)"
    unfolding survives_def by (auto simp add: list_ex_iff split: option.splits)
  finally show ?thesis .
qed

lemma apply_filters_loop_filter:
  "parser_filters f \<Longrightarrow> store_results rs \<Longrightarrow>
   apply_filters_loop f rs acc = Inr (acc @ filter (survives f) rs)"
proof (induction rs arbitrary: acc)
  case Nil
  show ?case by simp
next
  case (Cons r rs)
  from Cons.prems have v: "verdict f r = Inr (survives f r)" and rest: "store_results rs"
    by (simp_all add: verdict_aware store_results_def)
  show ?case
    unfolding apply_filters_loop_step v using Cons.IH [OF Cons.prems(1) rest] by simp
qed

lemma final_results_apply_filters:
  "final_results (apply_filters st) =
     (case apply_filters_loop (filters st) (final_results st) [] of
        Inl e \<Rightarrow> final_results st
      | Inr out \<Rightarrow> out)"
  by (simp add: apply_filters_def split: sum.splits)

lemma apply_filters_filter:
  "parser_filters (filters st) \<Longrightarrow> store_results (final_results st) \<Longrightarrow>
   final_results (apply_filters st) = filter (survives (filters st)) (final_results st)"
  by (simp add: final_results_apply_filters apply_filters_loop_filter)

lemma apply_filters_subseq: "subseq (final_results (apply_filters st)) (final_results st)"
proof (cases "apply_filters_loop (filters st) (final_results st) []")
  case (Inl e)
  then show ?thesis by (simp add: final_results_apply_filters)
next
  case (Inr out)
  then have "out = filter (\<lambda>r. verdict (filters st) r = Inr True) (final_results st)"
    using apply_filters_loop_kept by fastforce
  with Inr show ?thesis by (simp add: final_results_apply_filters)
qed

lemma survives_insensitive:
  assumes "parser_filters f"
  shows "survives f r \<longleftrightarrow>
     (sender_emails f = [] \<or>
        (\<exists>s \<in> set (sender_emails f). sublist (lower s) (lower (sender_email r)))) \<and>
     (\<forall>d. date_from f = Some d \<longrightarrow> reading d \<le> reading (date_sent r)) \<and>
     (\<forall>d. date_to f = Some d \<longrightarrow> reading (date_sent r) \<le> reading d) \<and>
     (\<forall>imp. is_important f = Some imp \<longrightarrow>
        (''IMPORTANT'' \<in> set (SearchResult.labels r)) = imp) \<and>
     (\<forall>att. SearchFilters.has_attachments f = Some att \<longrightarrow>
        SearchResult.has_attachments r = att) \<and>
     (SearchFilters.labels f = [] \<or>
        set (SearchResult.labels r) \<inter> set (SearchFilters.labels f) \<noteq> {})"
proof -
  have low: "\<And>s. s \<in> set (sender_emails f) \<Longrightarrow> lower s = s"
    using assms by (simp add: parser_filters_def list_all_iff)
  have "(\<exists>s \<in> set (sender_emails f). str_contains s (lower (sender_email r))) =
        (\<exists>s \<in> set (sender_emails f). sublist (lower s) (lower (sender_email r)))"
    by (rule bex_cong) (simp_all add: low str_contains_sublist)
  then show ?thesis
    unfolding survives_def by (auto split: option.splits)
qed

lemma add_keyword_result_other:
  "i \<noteq> message_id r \<Longrightarrow> map_of (add_keyword_result c r) i = map_of c i"
  by (simp add: add_keyword_result_def Let_def update_conv' split: option.splits)

lemma add_semantic_result_other:
  "i \<noteq> message_id r \<Longrightarrow> map_of (add_semantic_result c r) i = map_of c i"
  by (simp add: add_semantic_result_def Let_def update_conv' split: option.splits)

lemma foldl_keyword_other:
  "i \<notin> message_id ` set kw \<Longrightarrow> map_of (foldl add_keyword_result c kw) i = map_of c i"
  by (induction kw arbitrary: c) (auto simp: add_keyword_result_other)

lemma foldl_semantic_other:
  "i \<notin> message_id ` set sem \<Longrightarrow> map_of (foldl add_semantic_result c sem) i = map_of c i"
  by (induction sem arbitrary: c) (auto simp: add_semantic_result_other)

lemma hits_Cons:
  "hits i (x # xs) = (if message_id x = i then x # hits i xs else hits i xs)"
  by (simp add: hits_def)

lemma hits_Nil_iff: "hits i xs = [] \<longleftrightarrow> i \<notin> message_id ` set xs"
  by (auto simp add: hits_def filter_empty_conv)

lemma hits_single_id: "hits i xs = [a] \<Longrightarrow> message_id a = i"
proof -
  assume "hits i xs = [a]"
  then have "a \<in> set (filter (\<lambda>x. message_id x = i) xs)" by (simp add: hits_def)
  then show ?thesis by simp
qed

lemma add_keyword_result_fresh:
  "map_of c (message_id a) = None \<Longrightarrow>
   map_of (add_keyword_result c a) (message_id a) = Some (a\<lparr>SearchResult.search_type := ''keyword''\<rparr>)"
  by (simp add: add_keyword_result_def update_conv')

lemma add_semantic_result_same:
  "map_of (add_semantic_result c b) (message_id b) =
     Some (case map_of c (message_id b) of
             None \<Rightarrow> b\<lparr>SearchResult.search_type := ''semantic''\<rparr>
           | Some cur \<Rightarrow> cur\<lparr>relevance_score := 0.6 * relevance_score b + 0.4 * relevance_score cur,
                              SearchResult.search_type := ''hybrid''\<rparr>)"
  by (simp add: add_semantic_result_def Let_def update_conv' mult.commute split: option.splits)

lemma foldl_keyword_hit:
  "hits i kw = [a] \<Longrightarrow> map_of c i = None \<Longrightarrow>
   map_of (foldl add_keyword_result c kw) i = Some (a\<lparr>SearchResult.search_type := ''keyword''\<rparr>)"
proof (induction kw arbitrary: c)
  case Nil
  then show ?case by (simp add: hits_def)
next
  case (Cons x kw)
  show ?case
  proof (cases "message_id x = i")
    case True
    with Cons.prems(1) have xa: "x = a" and none: "hits i kw = []" by (simp_all add: hits_Cons)
    from none have "i \<notin> message_id ` set kw" by (simp add: hits_Nil_iff)
    then have "map_of (foldl add_keyword_result (add_keyword_result c x) kw) i
        = map_of (add_keyword_result c x) i"
      by (rule foldl_keyword_other)
    also have "\<dots> = Some (a\<lparr>SearchResult.search_type := ''keyword''\<rparr>)"
      using add_keyword_result_fresh [of c x] Cons.prems(2) True xa by simp
    finally show ?thesis by simp
  next
    case False
    with Cons.prems(1) have h: "hits i kw = [a]" by (simp add: hits_Cons)
    from False have "map_of (add_keyword_result c x) i = None"
      using Cons.prems(2) by (simp add: add_keyword_result_other)
    with h have "map_of (foldl add_keyword_result (add_keyword_result c x) kw) i
        = Some (a\<lparr>SearchResult.search_type := ''keyword''\<rparr>)"
      by (rule Cons.IH)
    then show ?thesis by simp
  qed
qed

lemma foldl_semantic_hit:
  "hits i sem = [b] \<Longrightarrow>
   map_of (foldl add_semantic_result c sem) i =
     Some (case map_of c i of
             None \<Rightarrow> b\<lparr>SearchResult.search_type := ''semantic''\<rparr>
           | Some cur \<Rightarrow> cur\<lparr>relevance_score := 0.6 * relevance_score b + 0.4 * relevance_score cur,
                              SearchResult.search_type := ''hybrid''\<rparr>)"
proof (induction sem arbitrary: c)
  case Nil
  then show ?case by (simp add: hits_def)
next
  case (Cons x sem)
  show ?case
  proof (cases "message_id x = i")
    case True
    with Cons.prems have xb: "x = b" and none: "hits i sem = []" by (simp_all add: hits_Cons)
    from none have "i \<notin> message_id ` set sem" by (simp add: hits_Nil_iff)
    then have "map_of (foldl add_semantic_result (add_semantic_result c x) sem) i
        = map_of (add_semantic_result c x) i"
      by (rule foldl_semantic_other)
    also have "\<dots> = Some (case map_of c i of
             None \<Rightarrow> b\<lparr>SearchResult.search_type := ''semantic''\<rparr>
           | Some cur \<Rightarrow> cur\<lparr>relevance_score := 0.6 * relevance_score b + 0.4 * relevance_score cur,
                              SearchResult.search_type := ''hybrid''\<rparr>)"
    proof -
      from True xb have idb: "message_id b = i" by simp
      show ?thesis using add_semantic_result_same [of c b] unfolding xb idb .
    qed
    finally show ?thesis by simp
  next
    case False
    with Cons.prems have h: "hits i sem = [b]" by (simp add: hits_Cons)
    from False have same: "map_of (add_semantic_result c x) i = map_of c i"
      by (simp add: add_semantic_result_other)
    show ?thesis using Cons.IH [OF h, of "add_semantic_result c x"] same by simp
  qed
qed

lemma set_py_slice_to: "set (py_slice_to xs n) \<subseteq> set xs"
  by (auto simp: py_slice_to_def dest: in_set_takeD)

lemma set_fuse_subset: "set (fuse kw sem n) \<subseteq> snd ` set (combine kw sem)"
  unfolding fuse_def Let_def using set_py_slice_to[of "sort_by_relevance (map snd (combine kw sem))" n]
  by (auto simp: sort_by_relevance_def)

lemma fuse_entry_lookup:
  assumes "r \<in> set (fuse kw sem n)"
  shows "map_of (combine kw sem) (message_id r) = Some r"
proof -
  from assms set_fuse_subset obtain k where kr: "(k, r) \<in> set (combine kw sem)" by fastforce
  have ok: "keys_ok (combine kw sem)" by (rule combine_keys_ok)
  then have "k = message_id r" using kr by (auto simp: keys_ok_def)
  moreover have "distinct (map fst (combine kw sem))" using ok by (simp add: keys_ok_def)
  ultimately show ?thesis using kr by simp
qed


lemma length_fuse: "0 \<le> n \<Longrightarrow> int (length (fuse kw sem n)) \<le> n"
  by (simp add: fuse_def py_slice_to_def)

lemma length_apply_filters:
  "length (final_results (apply_filters st)) \<le> length (final_results st)"
  using apply_filters_subseq [of st] by (rule list_emb_length)

lemma combine_hit_both:
  assumes a: "hits i kw = [a]" and b: "hits i sem = [b]"
  shows "map_of (combine kw sem) i =
     Some (a\<lparr>relevance_score := 0.6 * relevance_score b + 0.4 * relevance_score a,
             SearchResult.search_type := ''hybrid''\<rparr>)"
proof -
  have "map_of (foldl add_keyword_result [] kw) i = Some (a\<lparr>SearchResult.search_type := ''keyword''\<rparr>)"
    using foldl_keyword_hit [OF a, of "[]"] by simp
  then show ?thesis
    unfolding combine_def foldl_semantic_hit [OF b] by simp
qed

lemma combine_hit_keyword:
  assumes a: "hits i kw = [a]" and nb: "hits i sem = []"
  shows "map_of (combine kw sem) i = Some (a\<lparr>SearchResult.search_type := ''keyword''\<rparr>)"
proof -
  from nb have "i \<notin> message_id ` set sem" by (simp add: hits_Nil_iff)
  then have "map_of (combine kw sem) i = map_of (foldl add_keyword_result [] kw) i"
    unfolding combine_def by (rule foldl_semantic_other)
  also have "\<dots> = Some (a\<lparr>SearchResult.search_type := ''keyword''\<rparr>)"
    using foldl_keyword_hit [OF a, of "[]"] by simp
  finally show ?thesis .
qed

lemma combine_hit_semantic:
  assumes na: "hits i kw = []" and b: "hits i sem = [b]"
  shows "map_of (combine kw sem) i = Some (b\<lparr>SearchResult.search_type := ''semantic''\<rparr>)"
proof -
  from na have "i \<notin> message_id ` set kw" by (simp add: hits_Nil_iff)
  then have "map_of (foldl add_keyword_result [] kw) i = None"
    using foldl_keyword_other [of i kw "[]"] by simp
  then show ?thesis
    unfolding combine_def foldl_semantic_hit [OF b] by simp
qed

lemma combine_lookup_none:
  "i \<notin> message_id ` set kw \<Longrightarrow> i \<notin> message_id ` set sem \<Longrightarrow> map_of (combine kw sem) i = None"
  unfolding combine_def by (simp add: foldl_semantic_other foldl_keyword_other)

lemma add_keyword_result_dom:
  "map_of (add_keyword_result c r) i \<noteq> None \<longleftrightarrow> i = message_id r \<or> map_of c i \<noteq> None"
  by (cases "i = message_id r")
    (auto simp add: add_keyword_result_def Let_def update_conv' split: option.splits)

lemma add_semantic_result_dom:
  "map_of (add_semantic_result c r) i \<noteq> None \<longleftrightarrow> i = message_id r \<or> map_of c i \<noteq> None"
  by (cases "i = message_id r")
    (auto simp add: add_semantic_result_def Let_def update_conv' split: option.splits)

lemma foldl_keyword_dom:
  "map_of (foldl add_keyword_result c rs) i \<noteq> None \<longleftrightarrow>
     i \<in> message_id ` set rs \<or> map_of c i \<noteq> None"
proof (induction rs arbitrary: c)
  case Nil
  show ?case by simp
next
  case (Cons r rs)
  show ?case unfolding foldl_Cons Cons.IH add_keyword_result_dom by auto
qed

lemma foldl_semantic_dom:
  "map_of (foldl add_semantic_result c rs) i \<noteq> None \<longleftrightarrow>
     i \<in> message_id ` set rs \<or> map_of c i \<noteq> None"
proof (induction rs arbitrary: c)
  case Nil
  show ?case by simp
next
  case (Cons r rs)
  show ?case unfolding foldl_Cons Cons.IH add_semantic_result_dom by auto
qed

lemma combine_dom:
  "map_of (combine kw sem) i \<noteq> None \<longleftrightarrow> i \<in> message_id ` (set kw \<union> set sem)"
  unfolding combine_def foldl_semantic_dom foldl_keyword_dom by auto

lemma combine_ids: "fst ` set (combine kw sem) = message_id ` (set kw \<union> set sem)"
proof (rule set_eqI)
  fix i
  have "i \<in> fst ` set (combine kw sem) \<longleftrightarrow> map_of (combine kw sem) i \<noteq> None"
    by (simp add: map_of_eq_None_iff)
  then show "i \<in> fst ` set (combine kw sem) \<longleftrightarrow> i \<in> message_id ` (set kw \<union> set sem)"
    unfolding combine_dom .
qed

lemma set_fused_results: "set (fused_results kw sem) = snd ` set (combine kw sem)"
  by (simp add: fused_results_def sort_by_relevance_def)

lemma fused_results_ids:
  "message_id ` set (fused_results kw sem) = message_id ` (set kw \<union> set sem)"
proof -
  have ok: "keys_ok (combine kw sem)" by (rule combine_keys_ok)
  have "message_id ` set (fused_results kw sem) = set (map message_id (map snd (combine kw sem)))"
    by (simp add: set_fused_results image_image)
  also have "\<dots> = fst ` set (combine kw sem)"
    unfolding keys_ok_ids [OF ok] by simp
  finally show ?thesis unfolding combine_ids .
qed

lemma fused_results_distinct: "distinct (map message_id (fused_results kw sem))"
  unfolding fused_results_def by (simp only: distinct_ids_sort distinct_ids_combine)

lemma fused_results_sorted:
  "sorted_wrt (\<lambda>x y. relevance_score y \<le> relevance_score x) (fused_results kw sem)"
proof -
  have "sorted (map (\<lambda>x. - relevance_score x) (fused_results kw sem))"
    unfolding fused_results_def sort_by_relevance_def by (rule sorted_sort_key)
  then show ?thesis by (simp add: sorted_map)
qed

lemma fuse_take: "0 \<le> n \<Longrightarrow> fuse kw sem n = take (nat n) (fused_results kw sem)"
  by (simp add: fuse_def fused_results_def py_slice_to_def)

lemma fused_entry_lookup:
  assumes "r \<in> set (fused_results kw sem)"
  shows "map_of (combine kw sem) (message_id r) = Some r"
proof -
  from assms obtain k where kr: "(k, r) \<in> set (combine kw sem)"
    unfolding set_fused_results by fastforce
  have ok: "keys_ok (combine kw sem)" by (rule combine_keys_ok)
  then have "k = message_id r" using kr by (auto simp: keys_ok_def)
  moreover have "distinct (map fst (combine kw sem))" using ok by (simp add: keys_ok_def)
  ultimately show ?thesis using kr by simp
qed

lemma lookup_unique: "map_of c k = Some r \<Longrightarrow> map_of c k = Some x \<Longrightarrow> r = x"
  by simp

lemma fused_entry_both:
  assumes r: "r \<in> set (fused_results kw sem)"
    and a: "hits (message_id r) kw = [a]" and b: "hits (message_id r) sem = [b]"
  shows "r = a\<lparr>relevance_score := 0.6 * relevance_score b + 0.4 * relevance_score a,
                SearchResult.search_type := ''hybrid''\<rparr>"
  using fused_entry_lookup [OF r] combine_hit_both [OF a b] by (rule lookup_unique)

lemma fused_entry_keyword:
  assumes r: "r \<in> set (fused_results kw sem)"
    and a: "hits (message_id r) kw = [a]" and nb: "hits (message_id r) sem = []"
  shows "r = a\<lparr>SearchResult.search_type := ''keyword''\<rparr>"
  using fused_entry_lookup [OF r] combine_hit_keyword [OF a nb] by (rule lookup_unique)

lemma fused_entry_semantic:
  assumes r: "r \<in> set (fused_results kw sem)"
    and na: "hits (message_id r) kw = []" and b: "hits (message_id r) sem = [b]"
  shows "r = b\<lparr>SearchResult.search_type := ''semantic''\<rparr>"
  using fused_entry_lookup [OF r] combine_hit_semantic [OF na b] by (rule lookup_unique)

lemma combine_overlap:
  "map snd (combine overlap_keyword overlap_semantic) =
     [mk_result 1 ''a@x.com'' 0.7 ''hybrid'', mk_result 2 ''b@x.com'' 3 ''keyword'',
      mk_result 3 ''c@x.com'' 0.95 ''semantic'']"
  by (simp add: overlap_keyword_def overlap_semantic_def combine_def add_keyword_result_def
      add_semantic_result_def mk_result_def Let_def)

lemma sort_overlap:
  "sort_by_relevance
     [mk_result 1 ''a@x.com'' 0.7 ''hybrid'', mk_result 2 ''b@x.com'' 3 ''keyword'',
      mk_result 3 ''c@x.com'' 0.95 ''semantic''] =
     [mk_result 2 ''b@x.com'' 3 ''keyword'', mk_result 3 ''c@x.com'' 0.95 ''semantic'',
      mk_result 1 ''a@x.com'' 0.7 ''hybrid'']"
  by (simp add: sort_by_relevance_def mk_result_def)

lemma overlap_ids:
  "map message_id overlap_keyword = [1, 2]" "map message_id overlap_semantic = [1, 3]"
  by (simp_all add: overlap_keyword_def overlap_semantic_def mk_result_def)

lemma fused_overlap:
  "fused_results overlap_keyword overlap_semantic =
     [mk_result 2 ''b@x.com'' 3 ''keyword'', mk_result 3 ''c@x.com'' 0.95 ''semantic'',
      mk_result 1 ''a@x.com'' 0.7 ''hybrid'']"
  unfolding fused_results_def combine_overlap sort_overlap ..

lemma overlap_hits:
  "hits 1 overlap_keyword = [mk_result 1 ''a@x.com'' 1 ''keyword'']"
  "hits 1 overlap_semantic = [mk_result 1 ''a@x.com'' 0.5 ''semantic'']"
  by (simp_all add: hits_def overlap_keyword_def overlap_semantic_def mk_result_def)

section \<open>The parser and the clock: lemmas\<close>

lemma parse_body_rest:
  "parse_body today raw =
     parse_rest (extract_relative_date (date_patterns today)
        (extract_senders sender_patterns (strip (lower raw), empty_filters)))"
  by (simp add: parse_body_def parse_rest_def)

lemma date_patterns_fst: "map fst (date_patterns t) = map fst (date_patterns 0)"
  by (simp add: date_patterns_def)

lemma same_but_dates_refl: "same_but_dates f f"
  by (simp add: same_but_dates_def)

lemma relative_date_same:
  "map fst ps = map fst ps' \<Longrightarrow>
   fst (extract_relative_date ps (q, f)) = fst (extract_relative_date ps' (q, f)) \<and>
   same_but_dates (snd (extract_relative_date ps (q, f))) (snd (extract_relative_date ps' (q, f)))"
proof (induction ps arbitrary: ps')
  case Nil
  then show ?case by (simp add: same_but_dates_def)
next
  case (Cons p ps)
  then obtain p' ps'' where ps': "ps' = p' # ps''" by (cases ps') auto
  obtain m a b where p: "p = (m, a, b)" by (cases p)
  obtain m' a' b' where p': "p' = (m', a', b')" by (cases p')
  from Cons.prems ps' p p' have mm: "m' = m" and tl: "map fst ps = map fst ps''" by auto
  show ?case
  proof (cases "re_search m q")
    case True
    then show ?thesis by (simp add: ps' p p' mm same_but_dates_def)
  next
    case False
    then show ?thesis using Cons.IH [OF tl] by (simp add: ps' p p' mm)
  qed
qed

lemma relative_date_none:
  "\<not> list_ex (\<lambda>pattern. re_search pattern q) (map fst ps) \<Longrightarrow>
   extract_relative_date ps (q, f) = (q, f)"
  by (induction ps) auto

lemma extract_month_same:
  assumes "same_but_dates f g"
  shows "(case extract_month (q, f) of
            Inl e \<Rightarrow> extract_month (q, g) = Inl e
          | Inr (q1, f1) \<Rightarrow>
              (\<exists>g1. extract_month (q, g) = Inr (q1, g1) \<and> same_but_dates f1 g1))"
  using assms
  by (auto simp add: extract_month_def same_but_dates_def split: option.splits sum.splits)

lemma extract_flags_same:
  assumes "same_but_dates f g"
  shows "fst (extract_flags (q, f)) = fst (extract_flags (q, g)) \<and>
         same_but_dates (snd (extract_flags (q, f))) (snd (extract_flags (q, g)))"
  using assms by (simp add: extract_flags_def same_but_dates_def)

lemma extract_labels_same:
  "same_but_dates f g \<Longrightarrow>
   fst (extract_labels ps (q, f)) = fst (extract_labels ps (q, g)) \<and>
   same_but_dates (snd (extract_labels ps (q, f))) (snd (extract_labels ps (q, g)))"
proof (induction ps arbitrary: q f g)
  case Nil
  then show ?case by simp
next
  case (Cons p ps)
  obtain m l where p: "p = (m, l)" by (cases p)
  from Cons.prems have
    upd: "same_but_dates (f\<lparr>SearchFilters.labels := SearchFilters.labels f @ [l]\<rparr>)
            (g\<lparr>SearchFilters.labels := SearchFilters.labels g @ [l]\<rparr>)"
    by (simp add: same_but_dates_def)
  show ?case
  proof (cases "re_search m q")
    case True
    then show ?thesis using Cons.IH [OF upd] by (simp add: p)
  next
    case False
    then show ?thesis using Cons.IH [OF Cons.prems] by (simp add: p)
  qed
qed

lemma determine_search_type_same:
  "same_but_dates f g \<Longrightarrow> determine_search_type c f = determine_search_type c g"
  by (simp add: determine_search_type_def same_but_dates_def)

lemma finish_same:
  assumes "same_but_dates f g"
  shows "same_outcome
     (let q' = clean_up q;
          f' = f\<lparr>keywords := keywords f @ remaining_keywords q'\<rparr>;
          cleaned = (if keywords f' \<noteq> [] then join '' '' (keywords f') else q')
      in Inr (f', cleaned, determine_search_type cleaned f'))
     (let q' = clean_up q;
          g' = g\<lparr>keywords := keywords g @ remaining_keywords q'\<rparr>;
          cleaned = (if keywords g' \<noteq> [] then join '' '' (keywords g') else q')
      in Inr (g', cleaned, determine_search_type cleaned g'))"
proof -
  from assms
  have s: "same_but_dates (f\<lparr>keywords := keywords f @ remaining_keywords (clean_up q)\<rparr>)
             (g\<lparr>keywords := keywords g @ remaining_keywords (clean_up q)\<rparr>)"
    by (simp add: same_but_dates_def)
  from assms
  have k: "keywords (f\<lparr>keywords := keywords f @ remaining_keywords (clean_up q)\<rparr>)
             = keywords (g\<lparr>keywords := keywords g @ remaining_keywords (clean_up q)\<rparr>)"
    by (simp add: same_but_dates_def)
  have d: "determine_search_type c (f\<lparr>keywords := keywords f @ remaining_keywords (clean_up q)\<rparr>)
             = determine_search_type c (g\<lparr>keywords := keywords g @ remaining_keywords (clean_up q)\<rparr>)"
    for c
    using s by (rule determine_search_type_same)
  show ?thesis
    unfolding Let_def same_outcome_def sum.case prod.case k d using s by (intro conjI refl)
qed

lemma parse_rest_same:
  assumes s: "same_but_dates f g"
  shows "same_outcome (parse_rest (q, f)) (parse_rest (q, g))"
proof (cases "extract_month (q, f)")
  case (Inl e)
  with extract_month_same [OF s, of q] have "extract_month (q, g) = Inl e" by simp
  with Inl show ?thesis by (simp add: parse_rest_def same_outcome_def)
next
  case (Inr qf)
  obtain q1 f1 where qf: "qf = (q1, f1)" by (cases qf)
  from Inr qf extract_month_same [OF s, of q]
  obtain g1 where g: "extract_month (q, g) = Inr (q1, g1)" and s1: "same_but_dates f1 g1"
    by auto
  obtain q2 f2 where e1: "extract_flags (q1, f1) = (q2, f2)" by (cases "extract_flags (q1, f1)")
  obtain q2' g2 where e2: "extract_flags (q1, g1) = (q2', g2)" by (cases "extract_flags (q1, g1)")
  from extract_flags_same [OF s1, of q1] e1 e2
  have q2: "q2' = q2" and s2: "same_but_dates f2 g2" by simp_all
  obtain q3 f3 where l1: "extract_labels label_patterns (q2, f2) = (q3, f3)"
    by (cases "extract_labels label_patterns (q2, f2)")
  obtain q3' g3 where l2: "extract_labels label_patterns (q2, g2) = (q3', g3)"
    by (cases "extract_labels label_patterns (q2, g2)")
  from extract_labels_same [OF s2, of label_patterns q2] l1 l2
  have q3: "q3' = q3" and s3: "same_but_dates f3 g3" by simp_all
  show ?thesis
    unfolding parse_rest_def Inr qf g sum.case e1 e2 q2 l1 l2 q3 prod.case
    using s3 by (rule finish_same)
qed

lemma parse_body_same: "same_outcome (parse_body t1 q) (parse_body t2 q)"
proof -
  obtain q0 f0 where s0: "extract_senders sender_patterns (strip (lower q), empty_filters) = (q0, f0)"
    by (cases "extract_senders sender_patterns (strip (lower q), empty_filters)")
  have m: "map fst (date_patterns t1) = map fst (date_patterns t2)"
    using date_patterns_fst [of t1] date_patterns_fst [of t2] by simp
  obtain q1 f1 where r1: "extract_relative_date (date_patterns t1) (q0, f0) = (q1, f1)"
    by (cases "extract_relative_date (date_patterns t1) (q0, f0)")
  obtain q2 f2 where r2: "extract_relative_date (date_patterns t2) (q0, f0) = (q2, f2)"
    by (cases "extract_relative_date (date_patterns t2) (q0, f0)")
  from relative_date_same [OF m, of q0 f0] r1 r2
  have qq: "q2 = q1" and s: "same_but_dates f1 f2" by simp_all
  show ?thesis
    unfolding parse_body_rest s0 r1 r2 qq using s by (rule parse_rest_same)
qed

lemma parse_body_no_relative_date:
  assumes "\<not> mentions_relative_date q"
  shows "parse_body t1 q = parse_body t2 q"
proof -
  obtain q0 f0 where s0: "extract_senders sender_patterns (strip (lower q), empty_filters) = (q0, f0)"
    by (cases "extract_senders sender_patterns (strip (lower q), empty_filters)")
  from assms have "\<not> list_ex (\<lambda>pattern. re_search pattern q0) (map fst (date_patterns 0))"
    by (simp add: mentions_relative_date_def s0)
  then have "\<not> list_ex (\<lambda>pattern. re_search pattern q0) (map fst (date_patterns t))" for t
    by (subst date_patterns_fst)
  then have "extract_relative_date (date_patterns t) (q0, f0) = (q0, f0)" for t
    by (rule relative_date_none)
  then show ?thesis unfolding parse_body_rest s0 by simp
qed

lemma parse_query_same:
  "same_but_dates (filters (parse_query t1 st)) (filters (parse_query t2 st)) \<and>
   parse_query t1 st = (parse_query t2 st)\<lparr>filters := filters (parse_query t1 st)\<rparr>"
proof (cases "parse_body t1 (query st)")
  case (Inl e)
  with parse_body_same [of t1 "query st" t2] have "parse_body t2 (query st) = Inl e"
    by (simp add: same_outcome_def)
  with Inl show ?thesis by (simp add: parse_query_def same_but_dates_refl)
next
  case (Inr x)
  obtain f c t where x: "x = (f, c, t)" by (cases x)
  from Inr x parse_body_same [of t1 "query st" t2]
  obtain g where g: "parse_body t2 (query st) = Inr (g, c, t)" and s: "same_but_dates f g"
    by (auto simp add: same_outcome_def split: sum.splits)
  from Inr x g s show ?thesis by (simp add: parse_query_def)
qed

lemma parse_sender_body:
  "parse_body today ''emails from sender0@example.com'' =
     Inr (empty_filters\<lparr>sender_emails := [''sender0@example.com''], keywords := [''emails'']\<rparr>,
          ''emails'', FILTERED)"
  by code_simp


lemma parse_last_week_body:
  "parse_body today ''meetings last week'' =
     Inr (empty_filters\<lparr>date_from := Some (Aware (today - days 7)), date_to := Some (Aware today),
                         keywords := [''meetings'']\<rparr>,
          ''meetings'', FILTERED)"
  by code_simp

lemma no_relative_date_invoices:
  "\<not> mentions_relative_date ''important invoices from december 2024''"
  by code_simp

section \<open>The stages and their errors: lemmas\<close>

lemma parse_empty_body: "parse_body today '''' = Inr (empty_filters, [], KEYWORD)"
  by code_simp

lemma generate_query_vector_no_store:
  "generate_query_vector (env\<lparr>qdrant_service := x\<rparr>) st = generate_query_vector env st"
  by (simp add: generate_query_vector_def)

lemma keyword_search_no_store:
  "keyword_search (env\<lparr>qdrant_service := x\<rparr>) st = keyword_search env st"
  by (simp add: keyword_search_def)

lemma before_semantic_no_store:
  "before_semantic (env\<lparr>qdrant_service := x\<rparr>) q account cap = before_semantic env q account cap"
  unfolding before_semantic_def generate_query_vector_no_store keyword_search_no_store
  by simp

lemma parse_query_semantic:
  "semantic_results (parse_query t st) = semantic_results st"
  "total_semantic_matches (parse_query t st) = total_semantic_matches st"
  by (simp_all add: parse_query_def split: sum.splits prod.splits)

lemma generate_query_vector_semantic:
  "semantic_results (generate_query_vector env st) = semantic_results st"
  "total_semantic_matches (generate_query_vector env st) = total_semantic_matches st"
  by (simp_all add: generate_query_vector_def split: sum.splits option.splits)

lemma keyword_search_semantic:
  "semantic_results (keyword_search env st) = semantic_results st"
  "total_semantic_matches (keyword_search env st) = total_semantic_matches st"
  by (simp_all add: keyword_search_def Let_def split: sum.splits)

lemma before_semantic_empty:
  "semantic_results (before_semantic env q account cap) = []"
  "total_semantic_matches (before_semantic env q account cap) = 0"
  by (simp_all add: before_semantic_def keyword_search_semantic generate_query_vector_semantic
      parse_query_semantic initial_state_def)

lemma semantic_fields_same:
  "semantic_results st = [] \<Longrightarrow> total_semantic_matches st = 0 \<Longrightarrow>
   st\<lparr>semantic_results := [], total_semantic_matches := 0\<rparr> = st"
  by (cases st) simp

lemma search_similar_vectors_raises:
  assumes "\<forall>v l t. \<exists>e. client_search service v l t = Inl e"
  shows "search_similar_vectors env service v l t = []"
proof -
  from assms obtain e where "client_search service v l t = Inl e" by blast
  then show ?thesis by (simp add: search_similar_vectors_def)
qed

lemma semantic_search_store_raises:
  assumes "qdrant_service env = Some service"
    and "\<forall>v l t. \<exists>e. client_search service v l t = Inl e"
    and "semantic_results st = []" and "total_semantic_matches st = 0"
  shows "semantic_search env st = st"
  using assms(1) semantic_fields_same [OF assms(3,4)]
  by (simp add: semantic_search_def search_similar_vectors_raises [OF assms(2)])

lemma semantic_search_no_store: "semantic_search (env\<lparr>qdrant_service := None\<rparr>) st = st"
  by (simp add: semantic_search_def)

lemma run_workflow_before_semantic:
  "run_workflow env (initial_state (time_start env) q account cap) =
     finalize_results env (apply_filters (fuse_results
       (semantic_search env (before_semantic env q account cap))))"
  by (simp add: run_workflow_def before_semantic_def)

lemma finalize_results_no_store:
  "finalize_results (env\<lparr>qdrant_service := x\<rparr>) st = finalize_results env st"
  by (simp add: finalize_results_def)

lemma result_item_no_store: "result_item (env\<lparr>qdrant_service := x\<rparr>) = result_item env"
  by (rule ext) (simp add: result_item_def)

lemma run_workflow_store_raises:
  assumes "qdrant_service env = Some service"
    and "\<forall>v l t. \<exists>e. client_search service v l t = Inl e"
  shows "run_workflow env (initial_state (time_start env) q account cap) =
         run_workflow (env\<lparr>qdrant_service := None\<rparr>)
           (initial_state (time_start (env\<lparr>qdrant_service := None\<rparr>)) q account cap)"
proof -
  have "semantic_search env (before_semantic env q account cap) = before_semantic env q account cap"
    using assms before_semantic_empty by (rule semantic_search_store_raises)
  then show ?thesis
    unfolding run_workflow_before_semantic
    by (simp add: semantic_search_no_store before_semantic_no_store finalize_results_no_store)
qed

lemma search_emails_store_raises:
  assumes "qdrant_service env = Some service"
    and "\<forall>v l t. \<exists>e. client_search service v l t = Inl e"
  shows "search_emails env q account cap
         = search_emails (env\<lparr>qdrant_service := None\<rparr>) q account cap"
  unfolding search_emails_def run_workflow_store_raises [OF assms] result_item_no_store ..

lemma errors_later_stages:
  "errors (fuse_results st) = errors st"
  "errors (finalize_results env st) = errors st"
  "set (errors st) \<subseteq> set (errors (apply_filters st))"
  by (auto simp add: fuse_results_def finalize_results_def apply_filters_def split: sum.splits)

lemma semantic_count_later_stages:
  "total_semantic_matches (fuse_results st) = total_semantic_matches st"
  "total_semantic_matches (finalize_results env st) = total_semantic_matches st"
  "total_semantic_matches (apply_filters st) = total_semantic_matches st"
  by (simp_all add: fuse_results_def finalize_results_def apply_filters_def split: sum.splits)

lemma semantic_search_body_raises:
  assumes "qdrant_service env = Some service" and "query_vector st \<noteq> []"
    and "convert_vector_results env
           (search_similar_vectors env service (query_vector st) (max_results st) 0.3) = Inl e"
  shows "semantic_search env st = st\<lparr>errors := errors st @ [''Semantic search failed: '' @ e]\<rparr>"
  using assms by (simp add: semantic_search_def)

lemma search_emails_body_raises:
  assumes "qdrant_service env = Some service"
    and "query_vector (before_semantic env q account cap) \<noteq> []"
    and "convert_vector_results env
           (search_similar_vectors env service (query_vector (before_semantic env q account cap))
              (max_results (before_semantic env q account cap)) 0.3) = Inl e"
  shows "\<not> report_success (search_emails env q account cap)"
    and "(''Semantic search failed: '' @ e) \<in> set (report_errors (search_emails env q account cap))"
    and "fst (snd (report_statistics (search_emails env q account cap))) = 0"
proof -
  let ?s = "before_semantic env q account cap"
  let ?s' = "?s\<lparr>errors := errors ?s @ [''Semantic search failed: '' @ e]\<rparr>"
  have sem: "semantic_search env ?s = ?s'"
    using assms by (rule semantic_search_body_raises)
  have run: "run_workflow env (initial_state (time_start env) q account cap)
      = finalize_results env (apply_filters (fuse_results ?s'))"
    unfolding run_workflow_before_semantic sem ..
  have "(''Semantic search failed: '' @ e) \<in> set (errors ?s')" by simp
  then have "(''Semantic search failed: '' @ e) \<in> set (errors (fuse_results ?s'))"
    by (simp only: errors_later_stages)
  then have "(''Semantic search failed: '' @ e) \<in> set (errors (apply_filters (fuse_results ?s')))"
    using errors_later_stages(3) by blast
  then have mem: "(''Semantic search failed: '' @ e)
      \<in> set (errors (run_workflow env (initial_state (time_start env) q account cap)))"
    unfolding run by (simp only: errors_later_stages)
  then show "(''Semantic search failed: '' @ e) \<in> set (report_errors (search_emails env q account cap))"
    by (simp add: search_emails_def Let_def)
  from mem have "errors (run_workflow env (initial_state (time_start env) q account cap)) \<noteq> []"
    by auto
  then show "\<not> report_success (search_emails env q account cap)"
    by (simp add: search_emails_def Let_def)
  have "total_semantic_matches (run_workflow env (initial_state (time_start env) q account cap)) = 0"
    unfolding run by (simp add: semantic_count_later_stages before_semantic_empty)
  then show "fst (snd (report_statistics (search_emails env q account cap))) = 0"
    by (simp add: search_emails_def Let_def)
qed

lemma failing_search_report:
  "report_success (search_emails failing_services ''invoice payment'' 1 5) \<and>
   report_errors (search_emails failing_services ''invoice payment'' 1 5) = [] \<and>
   map item_message_id (report_results (search_emails failing_services ''invoice payment'' 1 5))
     = [1]"
  by code_simp

lemma bad_dates_before_semantic:
  "query_vector (before_semantic bad_dates_services ''invoice payment'' 1 5) \<noteq> [] \<and>
   convert_vector_results bad_dates_services
     (search_similar_vectors bad_dates_services sample_store
        (query_vector (before_semantic bad_dates_services ''invoice payment'' 1 5))
        (max_results (before_semantic bad_dates_services ''invoice payment'' 1 5)) 0.3)
     = Inl ''Invalid isoformat string''"
  by code_simp

section \<open>Claims about fusion and the post-filter\<close>

text \<open>
  Claim C2. After fusion no message id appears twice in the fused list, whatever the two
  input lists are: they may repeat ids and may overlap. The ids of the fused list, read in
  order, are pairwise different.
\<close>

theorem fuse_no_duplicate_ids: "distinct (map message_id (fuse kw sem n))"
  by (rule distinct_ids_fuse)

text \<open>
  Claim C3. A cap is a count, so it is not negative. For every state with such a cap,
  whatever its keyword and semantic result lists are, the list the fusion stage leaves in
  \<^verbatim>\<open>final_results\<close> has at most \<^verbatim>\<open>max_results\<close> entries, and the list the filter stage
  leaves there is no longer than the fused list it was computed from; this includes the
  case in which the filter loop raises and the list stays as it was.
\<close>

theorem fuse_cap_respected:
  "0 \<le> max_results st \<Longrightarrow>
   int (length (final_results (fuse_results st))) \<le> max_results st \<and>
   length (final_results (apply_filters (fuse_results st)))
     \<le> length (final_results (fuse_results st))"
  by (simp add: length_apply_filters) (simp add: fuse_results_def length_fuse)

theorem fuse_cap_respected_witness:
  "(0::int) \<le> max_results sample_state \<and>
   length (final_results (fuse_results sample_state)) = 1 \<and>
   int (length (final_results (fuse_results sample_state))) \<le> max_results sample_state \<and>
   length (final_results (apply_filters (fuse_results sample_state)))
     \<le> length (final_results (fuse_results sample_state))"
  using fuse_cap_respected [of sample_state]
  by (simp add: sample_state_def initial_state_def fuse_results_def fuse_def combine_def
      add_keyword_result_def add_semantic_result_def mk_result_def sort_by_relevance_def
      py_slice_to_def)

text \<open>
  Claim C4. The filter stage receives the filters the parser built (the parser lower-cases
  the query, so every sender string is lower-case, and it builds aware date bounds) and
  results whose dates are aware. On these, a result is in the output of the stage if and
  only if it is in its input and satisfies every active predicate: no sender is configured
  or some configured sender is a case-insensitive substring of the sender address; the
  lower date bound is unset or not after the date of the result; the upper date bound is
  unset or not before it; the importance flag is unset or equals the presence of the label
  \<^verbatim>\<open>IMPORTANT\<close>; the attachment flag is unset or equals that of the result; no label is
  configured or the result carries one of the configured labels.
\<close>

theorem apply_filters_conjunction:
  assumes "parser_filters (filters st)" and "store_results (final_results st)"
  shows "r \<in> set (final_results (apply_filters st)) \<longleftrightarrow>
     r \<in> set (final_results st) \<and>
     (sender_emails (filters st) = [] \<or>
        (\<exists>s \<in> set (sender_emails (filters st)). sublist (lower s) (lower (sender_email r)))) \<and>
     (\<forall>d. date_from (filters st) = Some d \<longrightarrow> reading d \<le> reading (date_sent r)) \<and>
     (\<forall>d. date_to (filters st) = Some d \<longrightarrow> reading (date_sent r) \<le> reading d) \<and>
     (\<forall>imp. is_important (filters st) = Some imp \<longrightarrow>
        (''IMPORTANT'' \<in> set (SearchResult.labels r)) = imp) \<and>
     (\<forall>att. SearchFilters.has_attachments (filters st) = Some att \<longrightarrow>
        SearchResult.has_attachments r = att) \<and>
     (SearchFilters.labels (filters st) = [] \<or>
        set (SearchResult.labels r) \<inter> set (SearchFilters.labels (filters st)) \<noteq> {})"
  unfolding apply_filters_filter [OF assms] set_filter mem_Collect_eq
    survives_insensitive [OF assms(1)] ..

theorem apply_filters_conjunction_witness:
  "parser_filters (filters filter_state) \<and> store_results (final_results filter_state) \<and>
   mk_result 1 ''Bob@x.com'' 1 ''keyword'' \<in> set (final_results (apply_filters filter_state)) \<and>
   mk_result 2 ''eve@x.com'' 3 ''keyword'' \<notin> set (final_results (apply_filters filter_state))"
proof -
  have p: "parser_filters (filters filter_state)"
    by (simp add: filter_state_def initial_state_def parser_filters_def empty_filters_def
        lower_def lower_char_def upper_chars_def lower_chars_def)
  have s: "store_results (final_results filter_state)"
    by (simp add: filter_state_def initial_state_def store_results_def mk_result_def is_aware_def)
  have low: "lower ''Bob@x.com'' = ''bob@x.com''" "lower ''eve@x.com'' = ''eve@x.com''"
    "lower ''bob'' = ''bob''"
    by (simp_all add: lower_def lower_char_def upper_chars_def lower_chars_def)
  have sub: "sublist ''bob'' ''bob@x.com''" "\<not> sublist ''bob'' ''eve@x.com''"
    by (simp_all add: sublist_Cons_right)
  have "mk_result 1 ''Bob@x.com'' 1 ''keyword'' \<in> set (final_results (apply_filters filter_state))"
    using apply_filters_conjunction [OF p s, of "mk_result 1 ''Bob@x.com'' 1 ''keyword''"] low sub
    by (simp add: filter_state_def initial_state_def empty_filters_def mk_result_def)
  moreover
  have "mk_result 2 ''eve@x.com'' 3 ''keyword'' \<notin> set (final_results (apply_filters filter_state))"
    using apply_filters_conjunction [OF p s, of "mk_result 2 ''eve@x.com'' 3 ''keyword''"] low sub
    by (simp add: filter_state_def initial_state_def empty_filters_def mk_result_def)
  ultimately show ?thesis using p s by simp
qed

text \<open>
  Claim C10. The filter stage preserves order and content. Its output is always a
  subsequence of its input: the records are the input's own, in the input's order, so
  score, provenance tag and metadata are unchanged. On the values the stage receives
  (filters built by the parser, results with aware dates) the output is exactly the input
  restricted to the results that pass every check of the filter set.
\<close>

theorem apply_filters_subsequence:
  "subseq (final_results (apply_filters st)) (final_results st) \<and>
   (parser_filters (filters st) \<and> store_results (final_results st) \<longrightarrow>
      final_results (apply_filters st) = filter (survives (filters st)) (final_results st))"
  by (simp add: apply_filters_subseq apply_filters_filter)

theorem apply_filters_subsequence_witness:
  "parser_filters (filters filter_state) \<and> store_results (final_results filter_state) \<and>
   final_results (apply_filters filter_state) = [mk_result 1 ''Bob@x.com'' 1 ''keyword''] \<and>
   subseq (final_results (apply_filters filter_state)) (final_results filter_state)"
proof -
  have p: "parser_filters (filters filter_state)"
    by (simp add: filter_state_def initial_state_def parser_filters_def empty_filters_def
        lower_def lower_char_def upper_chars_def lower_chars_def)
  have s: "store_results (final_results filter_state)"
    by (simp add: filter_state_def initial_state_def store_results_def mk_result_def is_aware_def)
  have low: "lower ''Bob@x.com'' = ''bob@x.com''" "lower ''eve@x.com'' = ''eve@x.com''"
    by (simp_all add: lower_def lower_char_def upper_chars_def lower_chars_def)
  have flt: "filter (survives (filters filter_state)) (final_results filter_state)
          = [mk_result 1 ''Bob@x.com'' 1 ''keyword'']"
    by (simp add: filter_state_def initial_state_def empty_filters_def mk_result_def
        survives_def low)
  have sub: "subseq (final_results (apply_filters filter_state)) (final_results filter_state)"
    and eq: "final_results (apply_filters filter_state)
               = filter (survives (filters filter_state)) (final_results filter_state)"
    using apply_filters_subsequence [of filter_state] p s by simp_all
  from eq flt have "final_results (apply_filters filter_state)
      = [mk_result 1 ''Bob@x.com'' 1 ''keyword'']"
    by (rule trans)
  with p s sub show ?thesis by blast
qed

text \<open>
  Claim C1, as stated, fails: the fused list is cut to \<^verbatim>\<open>max_results\<close> after sorting, so a
  message found by both searches need not have an entry at all. With the cap 2 the keyword
  list has ids 1 and 2 (scores 1 and 3) and the semantic list ids 1 and 3 (scores 0.5 and
  0.95); message 1 is in both lists, its blended score 0.7 is the lowest of the three, and
  the fused list holds messages 2 and 3 only.
\<close>

theorem fuse_blend_cut_counterexample:
  "map message_id overlap_keyword = [1, 2] \<and> map message_id overlap_semantic = [1, 3] \<and>
   map message_id (fuse overlap_keyword overlap_semantic 2) = [2, 3]"
  unfolding fuse_def Let_def combine_overlap sort_overlap overlap_ids
  by (simp add: py_slice_to_def mk_result_def)

text \<open>
  Claim C1, amended. The claim holds of \<^verbatim>\<open>fused_results\<close>, the sorted list before the cut,
  and the cut is its first \<^verbatim>\<open>max_results\<close> entries. For all keyword and semantic lists:
  the sorted list is in descending order of score; it has exactly one entry for every
  message id of either list and no other; for a cap that is not negative the fused list
  is its first \<^verbatim>\<open>max_results\<close> entries. An entry whose id has one hit in the keyword list
  (score \<open>k\<close>) and one hit in the semantic list (score \<open>s\<close>) is the keyword result with score
  \<open>0.6 * s + 0.4 * k\<close> and tag \<^verbatim>\<open>hybrid\<close>. An entry whose id has one hit in the keyword list
  and none in the semantic list is that keyword result with tag \<^verbatim>\<open>keyword\<close>; an entry whose
  id has one hit in the semantic list and none in the keyword list is that semantic result
  with tag \<^verbatim>\<open>semantic\<close>; the score is unchanged in both cases. Nothing is said of an id
  with several hits in one list.
\<close>

theorem fuse_blend_and_origin:
  "(0 \<le> n \<longrightarrow> fuse kw sem n = take (nat n) (fused_results kw sem)) \<and>
   sorted_wrt (\<lambda>x y. relevance_score y \<le> relevance_score x) (fused_results kw sem) \<and>
   distinct (map message_id (fused_results kw sem)) \<and>
   message_id ` set (fused_results kw sem) = message_id ` (set kw \<union> set sem) \<and>
   (\<forall>r \<in> set (fused_results kw sem).
      (\<forall>a b. hits (message_id r) kw = [a] \<and> hits (message_id r) sem = [b] \<longrightarrow>
         r = a\<lparr>relevance_score := 0.6 * relevance_score b + 0.4 * relevance_score a,
                SearchResult.search_type := ''hybrid''\<rparr>) \<and>
      (\<forall>a. hits (message_id r) kw = [a] \<and> hits (message_id r) sem = [] \<longrightarrow>
         r = a\<lparr>SearchResult.search_type := ''keyword''\<rparr>) \<and>
      (\<forall>b. hits (message_id r) kw = [] \<and> hits (message_id r) sem = [b] \<longrightarrow>
         r = b\<lparr>SearchResult.search_type := ''semantic''\<rparr>))"
proof (intro conjI ballI allI impI)
  assume "0 \<le> n"
  then show "fuse kw sem n = take (nat n) (fused_results kw sem)" by (rule fuse_take)
next
  show "sorted_wrt (\<lambda>x y. relevance_score y \<le> relevance_score x) (fused_results kw sem)"
    by (rule fused_results_sorted)
next
  show "distinct (map message_id (fused_results kw sem))" by (rule fused_results_distinct)
next
  show "message_id ` set (fused_results kw sem) = message_id ` (set kw \<union> set sem)"
    by (rule fused_results_ids)
next
  fix r a b
  assume r: "r \<in> set (fused_results kw sem)"
    and h: "hits (message_id r) kw = [a] \<and> hits (message_id r) sem = [b]"
  from h have a: "hits (message_id r) kw = [a]" and b: "hits (message_id r) sem = [b]"
    by (rule conjunct1, rule conjunct2)
  from r a b
  show "r = a\<lparr>relevance_score := 0.6 * relevance_score b + 0.4 * relevance_score a,
                SearchResult.search_type := ''hybrid''\<rparr>"
    by (rule fused_entry_both)
next
  fix r a
  assume r: "r \<in> set (fused_results kw sem)"
    and h: "hits (message_id r) kw = [a] \<and> hits (message_id r) sem = []"
  from h have a: "hits (message_id r) kw = [a]" and nb: "hits (message_id r) sem = []"
    by (rule conjunct1, rule conjunct2)
  from r a nb show "r = a\<lparr>SearchResult.search_type := ''keyword''\<rparr>"
    by (rule fused_entry_keyword)
next
  fix r b
  assume r: "r \<in> set (fused_results kw sem)"
    and h: "hits (message_id r) kw = [] \<and> hits (message_id r) sem = [b]"
  from h have na: "hits (message_id r) kw = []" and b: "hits (message_id r) sem = [b]"
    by (rule conjunct1, rule conjunct2)
  from r na b show "r = b\<lparr>SearchResult.search_type := ''semantic''\<rparr>"
    by (rule fused_entry_semantic)
qed

theorem fuse_blend_and_origin_witness:
  "(0::int) \<le> 2 \<and>
   fuse overlap_keyword overlap_semantic 2 = take 2 (fused_results overlap_keyword overlap_semantic) \<and>
   mk_result 1 ''a@x.com'' 0.7 ''hybrid'' \<in> set (fused_results overlap_keyword overlap_semantic) \<and>
   hits 1 overlap_keyword = [mk_result 1 ''a@x.com'' 1 ''keyword''] \<and>
   hits 1 overlap_semantic = [mk_result 1 ''a@x.com'' 0.5 ''semantic''] \<and>
   mk_result 1 ''a@x.com'' 0.7 ''hybrid'' =
     (mk_result 1 ''a@x.com'' 1 ''keyword'')
       \<lparr>relevance_score := 0.6 * relevance_score (mk_result 1 ''a@x.com'' 0.5 ''semantic'')
                             + 0.4 * relevance_score (mk_result 1 ''a@x.com'' 1 ''keyword''),
        SearchResult.search_type := ''hybrid''\<rparr>"
proof -
  have mem: "mk_result 1 ''a@x.com'' 0.7 ''hybrid''
      \<in> set (fused_results overlap_keyword overlap_semantic)"
    unfolding fused_overlap by simp
  have id1: "message_id (mk_result 1 ''a@x.com'' 0.7 ''hybrid'') = 1"
    by (simp add: mk_result_def)
  note inst = fuse_blend_and_origin [of 2 overlap_keyword overlap_semantic]
  from inst have cut: "fuse overlap_keyword overlap_semantic 2
      = take 2 (fused_results overlap_keyword overlap_semantic)"
    by simp
  from inst mem have "\<forall>a b. hits (message_id (mk_result 1 ''a@x.com'' 0.7 ''hybrid'')) overlap_keyword = [a] \<and>
      hits (message_id (mk_result 1 ''a@x.com'' 0.7 ''hybrid'')) overlap_semantic = [b] \<longrightarrow>
      mk_result 1 ''a@x.com'' 0.7 ''hybrid'' =
        a\<lparr>relevance_score := 0.6 * relevance_score b + 0.4 * relevance_score a,
          SearchResult.search_type := ''hybrid''\<rparr>"
    by blast
  then have blend: "mk_result 1 ''a@x.com'' 0.7 ''hybrid'' =
     (mk_result 1 ''a@x.com'' 1 ''keyword'')
       \<lparr>relevance_score := 0.6 * relevance_score (mk_result 1 ''a@x.com'' 0.5 ''semantic'')
                             + 0.4 * relevance_score (mk_result 1 ''a@x.com'' 1 ''keyword''),
        SearchResult.search_type := ''hybrid''\<rparr>"
    unfolding id1 using overlap_hits by blast
  from cut mem overlap_hits blend show ?thesis by simp
qed

text \<open>
  A note on ids with several semantic hits, which claim C1 as amended leaves out. The
  vector store holds more than one vector per message, so the semantic list can repeat an
  id. The second hit then finds the first one in the dict and is treated as if the first
  had come from the keyword search: a message that only the semantic search found is
  tagged \<^verbatim>\<open>hybrid\<close> and its two semantic scores are blended.
\<close>

lemma fuse_repeated_semantic_hit:
  "fuse [] [mk_result 3 ''c@x.com'' 0.9 ''semantic'', mk_result 3 ''c@x.com'' 0.8 ''semantic''] 10
     = [mk_result 3 ''c@x.com'' 0.84 ''hybrid'']"
  by (simp add: fuse_def combine_def add_semantic_result_def mk_result_def Let_def
      sort_by_relevance_def py_slice_to_def)

section \<open>Claims about the parser\<close>

text \<open>
  Claim C5, as stated, fails. For the query \<^verbatim>\<open>emails from sender0@example.com\<close> the first
  sender pattern takes the address and the words \<^verbatim>\<open>from sender0@example.com\<close> out of the
  query. The word \<^verbatim>\<open>emails\<close> stays: it has more than two characters, so it becomes a
  keyword, the cleaned query is \<^verbatim>\<open>emails\<close> and not the empty string, and with six
  characters and a sender the search type is \<^verbatim>\<open>FILTERED\<close>, not \<^verbatim>\<open>KEYWORD\<close>. With the sample
  collaborators the vector stage produces a query vector and the semantic stage is not
  skipped: it returns the hit of the vector store.
\<close>

theorem parse_sender_query_counterexample:
  "cleaned_query (parse_query 0 (initial_state 0 ''emails from sender0@example.com'' 1 5))
     = ''emails'' \<and>
   search_type (parse_query 0 (initial_state 0 ''emails from sender0@example.com'' 1 5))
     = FILTERED \<and>
   map message_id (semantic_results
     (semantic_search sample_services (keyword_search sample_services
        (generate_query_vector sample_services
           (parse_query 0 (initial_state 0 ''emails from sender0@example.com'' 1 5))))))
     = [7]"
  by (simp add: parse_query_def parse_sender_body initial_state_def empty_filters_def
      generate_query_vector_def keyword_search_def semantic_search_def sample_services_def
      sample_store_def search_similar_vectors_def get_email_data_by_vector_id_def
      List.map_filter_simps)

text \<open>
  Claim C5, amended. Parsing the query \<^verbatim>\<open>emails from sender0@example.com\<close>, at any clock
  reading and for any account and cap, changes the initial state in three fields: the
  filters have the senders \<^verbatim>\<open>["sender0@example.com"]\<close> and the keywords \<^verbatim>\<open>["emails"]\<close> and
  nothing else, the cleaned query is \<^verbatim>\<open>emails\<close>, and the search type is \<^verbatim>\<open>FILTERED\<close>. The
  vector stage is then not skipped: an embedding service that succeeds on the text
  \<^verbatim>\<open>emails\<close> gives the state its query vector.
\<close>

theorem parse_sender_query:
  "parse_query today (initial_state now ''emails from sender0@example.com'' account cap) =
     (initial_state now ''emails from sender0@example.com'' account cap)
       \<lparr>filters := empty_filters\<lparr>sender_emails := [''sender0@example.com''],
                                  keywords := [''emails'']\<rparr>,
        cleaned_query := ''emails'', search_type := FILTERED\<rparr> \<and>
   (\<forall>embed result.
      embedding_service env = Some embed \<and> embed ''emails'' = Inr result \<and> success result \<longrightarrow>
      query_vector (generate_query_vector env
        (parse_query today (initial_state now ''emails from sender0@example.com'' account cap)))
        = vector result)"
  by (simp add: parse_query_def parse_sender_body initial_state_def generate_query_vector_def)

theorem parse_sender_query_witness:
  "embedding_service sample_services
     = Some (\<lambda>text. Inr \<lparr>vector = [0.1, 0.2], success = True, error_message = None\<rparr>) \<and>
   query_vector (generate_query_vector sample_services
     (parse_query 0 (initial_state 0 ''emails from sender0@example.com'' 1 5))) = [0.1, 0.2]"
proof -
  let ?r = "\<lparr>vector = [0.1, 0.2], success = True, error_message = None\<rparr>"
  have e: "embedding_service sample_services = Some (\<lambda>text. Inr ?r)"
    by (simp add: sample_services_def)
  have "query_vector (generate_query_vector sample_services
     (parse_query 0 (initial_state 0 ''emails from sender0@example.com'' 1 5))) = vector ?r"
    by (rule parse_sender_query [of 0 0 1 5 sample_services, THEN conjunct2, rule_format,
          of "\<lambda>text. Inr ?r" ?r]) (simp add: e)
  then show ?thesis using e by simp
qed



text \<open>
  Claim C9, as stated, fails: the parser reads the clock. For the query
  \<^verbatim>\<open>meetings last week\<close> the date bounds are the clock reading and the instant seven days
  before it, so two calls one microsecond apart give different filters.
\<close>

theorem parse_query_clock_counterexample:
  "filters (parse_query 1793000000000000 (initial_state 0 ''meetings last week'' 1 5))
     \<noteq> filters (parse_query 1793000000000001 (initial_state 0 ''meetings last week'' 1 5)) \<and>
   date_to (filters (parse_query 1793000000000000 (initial_state 0 ''meetings last week'' 1 5)))
     = Some (Aware 1793000000000000) \<and>
   date_to (filters (parse_query 1793000000000001 (initial_state 0 ''meetings last week'' 1 5)))
     = Some (Aware 1793000000000001)"
  by (simp add: parse_query_def parse_last_week_body initial_state_def empty_filters_def)

text \<open>
  Claim C9, amended. The parser is a function of the query string and of the clock
  reading, and the clock reading reaches only the values of the two date bounds. For every
  state and every two clock readings, the two parses agree in every field of the state
  other than the filters, so in the cleaned query, the search type and the errors; the
  filters agree in senders, labels, flags and keywords, and a date bound is set in the one
  exactly when it is set in the other. When the query, once the senders are taken out,
  contains none of the relative date phrases, the two parses are identical, date bounds
  included.
\<close>

theorem parse_query_clock:
  "same_but_dates (filters (parse_query t1 st)) (filters (parse_query t2 st)) \<and>
   parse_query t1 st = (parse_query t2 st)\<lparr>filters := filters (parse_query t1 st)\<rparr> \<and>
   (\<not> mentions_relative_date (query st) \<longrightarrow> parse_query t1 st = parse_query t2 st)"
proof (intro conjI impI)
  show "same_but_dates (filters (parse_query t1 st)) (filters (parse_query t2 st))"
    using parse_query_same [of t1 st t2] by (rule conjunct1)
  show "parse_query t1 st = (parse_query t2 st)\<lparr>filters := filters (parse_query t1 st)\<rparr>"
    using parse_query_same [of t1 st t2] by (rule conjunct2)
  assume "\<not> mentions_relative_date (query st)"
  then have "parse_body t1 (query st) = parse_body t2 (query st)"
    by (rule parse_body_no_relative_date)
  then show "parse_query t1 st = parse_query t2 st" by (simp add: parse_query_def)
qed

theorem parse_query_clock_witness:
  "\<not> mentions_relative_date
       (query (initial_state 0 ''important invoices from december 2024'' 1 5)) \<and>
   parse_query 0 (initial_state 0 ''important invoices from december 2024'' 1 5)
     = parse_query 1793000000000000
         (initial_state 0 ''important invoices from december 2024'' 1 5)"
  using parse_query_clock [of 0 "initial_state 0 ''important invoices from december 2024'' 1 5"
      1793000000000000] no_relative_date_invoices
  by (simp add: initial_state_def)

section \<open>Claims about the keyword stage and about errors\<close>

text \<open>
  Claim C7, as stated, fails. The store is queried only under the guard
  \<^verbatim>\<open>if state.cleaned_query or state.filters.keywords\<close>. The empty query parses to no
  keywords and an empty cleaned query; the sample store would answer any keyword query of
  account 1 with a row, and yet the stage returns the empty list.
\<close>

theorem keyword_search_no_keywords_counterexample:
  "keywords (filters (parse_query 0 (initial_state 0 '''' 1 5))) = [] \<and>
   cleaned_query (parse_query 0 (initial_state 0 '''' 1 5)) = [] \<and>
   execute_query sample_services 1 [] 5 = Inr [sample_row] \<and>
   keyword_results (keyword_search sample_services (parse_query 0 (initial_state 0 '''' 1 5)))
     = []"
  by (simp add: parse_query_def parse_empty_body initial_state_def empty_filters_def
      keyword_search_def sort_by_relevance_def sample_services_def)

text \<open>
  Claim C7, amended. When the keyword stage is given no keywords, that is an empty keyword
  list and an empty cleaned query, it does not query the store: whatever the collaborators
  are, it leaves the empty list in \<^verbatim>\<open>keyword_results\<close> and 0 in \<^verbatim>\<open>total_keyword_matches\<close>,
  records no error, and changes nothing else in the state.
\<close>

theorem keyword_search_no_keywords:
  "cleaned_query st = [] \<and> keywords (filters st) = [] \<longrightarrow>
   keyword_search env st = st\<lparr>keyword_results := [], total_keyword_matches := 0\<rparr>"
  by (simp add: keyword_search_def sort_by_relevance_def)

theorem keyword_search_no_keywords_witness:
  "cleaned_query (parse_query 0 (initial_state 0 '''' 1 5)) = [] \<and>
   keywords (filters (parse_query 0 (initial_state 0 '''' 1 5))) = [] \<and>
   keyword_search sample_services (parse_query 0 (initial_state 0 '''' 1 5))
     = (parse_query 0 (initial_state 0 '''' 1 5))
         \<lparr>keyword_results := [], total_keyword_matches := 0\<rparr>"
proof -
  have c: "cleaned_query (parse_query 0 (initial_state 0 '''' 1 5)) = []"
    and k: "keywords (filters (parse_query 0 (initial_state 0 '''' 1 5))) = []"
    by (simp_all add: parse_query_def parse_empty_body initial_state_def empty_filters_def)
  from c k keyword_search_no_keywords [of "parse_query 0 (initial_state 0 '''' 1 5)" sample_services]
  show ?thesis by blast
qed

text \<open>
  Claim C8, as stated, fails. \<^verbatim>\<open>QdrantService.search_similar_vectors\<close> catches every
  exception of the vector store and returns the empty list, so the semantic stage sees no
  error. With a vector store whose client raises on the search, the query
  \<^verbatim>\<open>invoice payment\<close> gives a report with the keyword result, message 1, the success flag
  true and no error.
\<close>

theorem search_emails_store_raises_counterexample:
  "client_search failing_store [0.1, 0.2] 5 0.3 = Inl ''connection refused'' \<and>
   qdrant_service failing_services = Some failing_store \<and>
   report_success (search_emails failing_services ''invoice payment'' 1 5) \<and>
   report_errors (search_emails failing_services ''invoice payment'' 1 5) = [] \<and>
   map item_message_id (report_results (search_emails failing_services ''invoice payment'' 1 5))
     = [1]"
  using failing_search_report
  by (simp add: failing_store_def failing_services_def sample_store_def)

text \<open>
  Claim C8, amended. For every query and all collaborators \<^verbatim>\<open>search_emails\<close> returns a
  report, and its success flag is true if and only if its error list is empty. When the
  client of the vector store raises, the report is the one of the same search without a
  vector store: the results are those of the keyword search, and no error is recorded for
  the vector store. When the body of the semantic stage itself raises, which it does when
  the date of a hit cannot be converted, the message of that exception is in the error
  list, the success flag is false, and no semantic match is counted.
\<close>

theorem search_emails_degrades:
  "report_success (search_emails env q account cap)
     = (report_errors (search_emails env q account cap) = []) \<and>
   (\<forall>service.
      qdrant_service env = Some service \<and> (\<forall>v l t. \<exists>e. client_search service v l t = Inl e) \<longrightarrow>
      search_emails env q account cap
        = search_emails (env\<lparr>qdrant_service := None\<rparr>) q account cap) \<and>
   (\<forall>service e.
      qdrant_service env = Some service \<and>
      query_vector (before_semantic env q account cap) \<noteq> [] \<and>
      convert_vector_results env
        (search_similar_vectors env service (query_vector (before_semantic env q account cap))
           (max_results (before_semantic env q account cap)) 0.3) = Inl e \<longrightarrow>
      \<not> report_success (search_emails env q account cap) \<and>
      (''Semantic search failed: '' @ e) \<in> set (report_errors (search_emails env q account cap)) \<and>
      fst (snd (report_statistics (search_emails env q account cap))) = 0)"
proof (intro conjI allI impI)
  show "report_success (search_emails env q account cap)
     = (report_errors (search_emails env q account cap) = [])"
    by (simp add: search_emails_def Let_def)
next
  fix service
  assume "qdrant_service env = Some service \<and> (\<forall>v l t. \<exists>e. client_search service v l t = Inl e)"
  then have "qdrant_service env = Some service"
    and "\<forall>v l t. \<exists>e. client_search service v l t = Inl e"
    by (rule conjunct1, rule conjunct2)
  then show "search_emails env q account cap
        = search_emails (env\<lparr>qdrant_service := None\<rparr>) q account cap"
    by (rule search_emails_store_raises)
next
  fix service e
  assume h: "qdrant_service env = Some service \<and>
      query_vector (before_semantic env q account cap) \<noteq> [] \<and>
      convert_vector_results env
        (search_similar_vectors env service (query_vector (before_semantic env q account cap))
           (max_results (before_semantic env q account cap)) 0.3) = Inl e"
  then have a: "qdrant_service env = Some service"
    and b: "query_vector (before_semantic env q account cap) \<noteq> []"
    and c: "convert_vector_results env
        (search_similar_vectors env service (query_vector (before_semantic env q account cap))
           (max_results (before_semantic env q account cap)) 0.3) = Inl e"
    by simp_all
  from a b c show "\<not> report_success (search_emails env q account cap)"
    by (rule search_emails_body_raises)
  from a b c
  show "(''Semantic search failed: '' @ e) \<in> set (report_errors (search_emails env q account cap))"
    by (rule search_emails_body_raises)
  from a b c show "fst (snd (report_statistics (search_emails env q account cap))) = 0"
    by (rule search_emails_body_raises)
qed

theorem search_emails_degrades_witness:
  "qdrant_service failing_services = Some failing_store \<and>
   (\<forall>v l t. \<exists>e. client_search failing_store v l t = Inl e) \<and>
   search_emails failing_services ''invoice payment'' 1 5
     = search_emails (failing_services\<lparr>qdrant_service := None\<rparr>) ''invoice payment'' 1 5 \<and>
   qdrant_service bad_dates_services = Some sample_store \<and>
   \<not> report_success (search_emails bad_dates_services ''invoice payment'' 1 5) \<and>
   ''Semantic search failed: Invalid isoformat string''
     \<in> set (report_errors (search_emails bad_dates_services ''invoice payment'' 1 5))"
proof -
  have q: "qdrant_service failing_services = Some failing_store"
    by (simp add: failing_services_def)
  have r: "\<forall>v l t. \<exists>e. client_search failing_store v l t = Inl e"
    by (simp add: failing_store_def)
  from search_emails_degrades [of failing_services "''invoice payment''" 1 5] q r
  have same: "search_emails failing_services ''invoice payment'' 1 5
     = search_emails (failing_services\<lparr>qdrant_service := None\<rparr>) ''invoice payment'' 1 5"
    by blast
  have q': "qdrant_service bad_dates_services = Some sample_store"
    by (simp add: bad_dates_services_def sample_services_def)
  from search_emails_degrades [of bad_dates_services "''invoice payment''" 1 5]
    q' bad_dates_before_semantic
  have "\<not> report_success (search_emails bad_dates_services ''invoice payment'' 1 5) \<and>
     (''Semantic search failed: '' @ ''Invalid isoformat string'')
       \<in> set (report_errors (search_emails bad_dates_services ''invoice payment'' 1 5))"
    by blast
  with q r same q' show ?thesis by simp
qed

end
